theory Spec2Isabelle
  imports Complex_Main "HOL-Library.Monad_Syntax" "HOL-Library.Sublist"
begin

section \<open>Python values used by the script\<close>

text \<open>
  Python floats: the finite values are idealised as reals (rounding is not modelled),
  beside the two infinities and NaN. Integer literals passed to the host
  (\<open>0\<close>, \<open>90\<close>, \<open>1\<close>) are written as the finite float of the same value.
\<close>

datatype pyfloat = NaN | NegInf | Fin real | PosInf

text \<open>\<open>a < b\<close> on floats; every comparison with NaN is false.\<close>

fun flt :: "pyfloat \<Rightarrow> pyfloat \<Rightarrow> bool" where
  "flt (Fin a) (Fin b) = (a < b)"
| "flt NegInf (Fin b) = True"
| "flt NegInf PosInf = True"
| "flt (Fin a) PosInf = True"
| "flt _ _ = False"

text \<open>
  Python's \<open>min(a, b)\<close> keeps \<open>a\<close> unless \<open>b < a\<close>, and \<open>max(a, b)\<close> keeps \<open>a\<close>
  unless \<open>b > a\<close>.
\<close>

definition py_min :: "pyfloat \<Rightarrow> pyfloat \<Rightarrow> pyfloat" where
  "py_min a b = (if flt b a then b else a)"

definition py_max :: "pyfloat \<Rightarrow> pyfloat \<Rightarrow> pyfloat" where
  "py_max a b = (if flt a b then b else a)"

text \<open>\<open>a - b\<close> on floats.\<close>

fun fsub :: "pyfloat \<Rightarrow> pyfloat \<Rightarrow> pyfloat" where
  "fsub (Fin a) (Fin b) = Fin (a - b)"
| "fsub NaN _ = NaN"
| "fsub _ NaN = NaN"
| "fsub PosInf PosInf = NaN"
| "fsub NegInf NegInf = NaN"
| "fsub PosInf _ = PosInf"
| "fsub NegInf _ = NegInf"
| "fsub (Fin a) PosInf = NegInf"
| "fsub (Fin a) NegInf = PosInf"

text \<open>The infinity that a product with the finite factor \<open>a\<close> gives (NaN for zero).\<close>

definition signed_inf :: "real \<Rightarrow> bool \<Rightarrow> pyfloat" where
  "signed_inf a positive =
     (if a = 0 then NaN else if (0 < a) = positive then PosInf else NegInf)"

text \<open>\<open>a * b\<close> on floats.\<close>

fun fmul :: "pyfloat \<Rightarrow> pyfloat \<Rightarrow> pyfloat" where
  "fmul (Fin a) (Fin b) = Fin (a * b)"
| "fmul NaN _ = NaN"
| "fmul _ NaN = NaN"
| "fmul (Fin a) PosInf = signed_inf a True"
| "fmul (Fin a) NegInf = signed_inf a False"
| "fmul PosInf (Fin b) = signed_inf b True"
| "fmul NegInf (Fin b) = signed_inf b False"
| "fmul PosInf PosInf = PosInf"
| "fmul NegInf NegInf = PosInf"
| "fmul PosInf NegInf = NegInf"
| "fmul NegInf PosInf = NegInf"

text \<open>\<open>a / 2.0\<close>, the only division of the script.\<close>

fun halve :: "pyfloat \<Rightarrow> pyfloat" where
  "halve (Fin a) = Fin (a / 2)"
| "halve a = a"

text \<open>\<open>"{:02d}".format(n)\<close> for \<open>n \<ge> 0\<close>: the decimal digits, padded with zeros to two.\<close>

definition digit_char :: "nat \<Rightarrow> char" where
  "digit_char d = char_of (48 + d)"

function decimal :: "nat \<Rightarrow> string" where
  "decimal n = (if n < 10 then [digit_char n] else decimal (n div 10) @ [digit_char (n mod 10)])"
  by pat_completeness auto
termination
  by (relation "measure id") auto

definition format_02d :: "nat \<Rightarrow> string" where
  "format_02d n = (let s = decimal n in replicate (2 - length s) (CHR ''0'') @ s)"

text \<open>\<open>s.split(":")\<close>: the pieces between the colons, never an empty list.\<close>

fun split_colon :: "string \<Rightarrow> string list" where
  "split_colon [] = [[]]"
| "split_colon (c # cs) =
     (if c = CHR '':'' then [] # split_colon cs
      else (case split_colon cs of
              [] \<Rightarrow> [[c]]
            | piece # pieces \<Rightarrow> (c # piece) # pieces))"

section \<open>The host application\<close>

text \<open>
  The script works only through the host's scene commands (\<open>maya.cmds\<close>) and two message
  boxes. The host is not part of the repository: it is a parameter of the model. Its
  queries read the scene, its commands change it and may raise (\<open>None\<close>). The answer of
  a command is nothing, one name or a list of names.
\<close>

type_synonym bbox = "real \<times> real \<times> real \<times> real \<times> real \<times> real"







datatype standard_button = Yes | No

datatype ret = RNone | RStr string | RList "string list"

datatype query =
    LsSelection
  | LsSelectedShapes
  | NodeType string
  | ExactWorldBoundingBox string
  | ObjExists string
  | Ls "string list" "string option"
  | WindowExists string

datatype command =
    Delete "string list"
  | Group string
  | Camera string
  | Move pyfloat pyfloat pyfloat string bool
  | Parent string string
  | DeleteUI string
  | Window string string
  | PaneLayout
  | ModelPanel string
  | ModelPanelCamera string string
  | ModelEditor string "(string \<times> string) list"
  | ShowWindow string
  | LookThru string
  | Select "string list"
  | ViewFit pyfloat
  | Duplicate string
  | Rename string string
  | BlendShape string string string
  | SetAttr string "pyfloat list"
  | Circle string pyfloat
  | Scale pyfloat pyfloat pyfloat string
  | Rotate pyfloat pyfloat pyfloat string
  | ParentConstraint string string
  | ScaleConstraint string string

text \<open>
  The constructors keep the arguments that vary: \<open>Move x y z obj local\<close> carries the
  \<open>localSpace\<close> flag; \<open>Group n\<close> is \<open>cmds.group(empty=True, name=n)\<close>;
  \<open>BlendShape source target n\<close> is \<open>cmds.blendShape(source, target, name=n,
  frontOfChain=True)\<close>; \<open>Circle n r\<close> is \<open>cmds.circle(name=n, normal=(0, 1, 0), radius=r)\<close>;
  \<open>Window n t\<close> is \<open>cmds.window(n, title=t, iconName='Short Name', widthHeight=(800, 600))\<close>;
  \<open>ModelPanel l\<close> is \<open>cmds.modelPanel(label=l)\<close> and \<open>ModelPanelCamera p c\<close> is
  \<open>cmds.modelPanel(p, edit=True, camera=c)\<close>; \<open>ModelEditor p flags\<close> is
  \<open>cmds.modelEditor(p, edit=True, ...)\<close> with the flags it sets; \<open>Delete names\<close> is
  \<open>cmds.delete\<close> on the names of all its arguments; \<open>Ls patterns type\<close> is
  \<open>cmds.ls(*patterns, type=type)\<close>. In the record of the host, \<open>ls_selection\<close> is
  \<open>cmds.ls(sl=True)\<close> and \<open>ls_selected_shapes\<close> is the second \<open>cmds.ls\<close> of
  \<open>duplicate_and_deform\<close> (the shapes under the selection); \<open>question\<close> is the button the
  user presses in the confirmation box.
\<close>

record 's host =
  ls_selection :: "'s \<Rightarrow> string list"
  ls_selected_shapes :: "'s \<Rightarrow> string list"
  nodeType :: "'s \<Rightarrow> string \<Rightarrow> string"
  exactWorldBoundingBox :: "'s \<Rightarrow> string \<Rightarrow> bbox"
  objExists :: "'s \<Rightarrow> string \<Rightarrow> bool"
  ls :: "'s \<Rightarrow> string list \<Rightarrow> string option \<Rightarrow> string list"
  window_exists :: "'s \<Rightarrow> string \<Rightarrow> bool"
  question :: "'s \<Rightarrow> standard_button"
  exec :: "'s \<Rightarrow> command \<Rightarrow> (ret \<times> 's) option"

text \<open>
  The trace of a call: every query, every command with the name the script takes from its
  answer (\<open>None\<close> where the script ignores the answer), and the two message boxes.
\<close>

datatype event =
    Q query
  | C command "string option"
  | Warning string string
  | Question string string

record 's world =
  scene :: 's
  log :: "event list"

definition emit :: "event \<Rightarrow> 's world \<Rightarrow> 's world" where
  "emit e w = w\<lparr>log := log w @ [e]\<rparr>"

text \<open>A command whose answer the script ignores.\<close>

definition call_unit :: "'s host \<Rightarrow> command \<Rightarrow> 's world \<Rightarrow> 's world option" where
  "call_unit h c w =
     (case exec h (scene w) c of
        None \<Rightarrow> None
      | Some (r, s') \<Rightarrow> Some \<lparr>scene = s', log = log w @ [C c None]\<rparr>)"

text \<open>A command whose answer the script uses as a name.\<close>

definition call_str :: "'s host \<Rightarrow> command \<Rightarrow> 's world \<Rightarrow> (string \<times> 's world) option" where
  "call_str h c w =
     (case exec h (scene w) c of
        Some (RStr n, s') \<Rightarrow> Some (n, \<lparr>scene = s', log = log w @ [C c (Some n)]\<rparr>)
      | _ \<Rightarrow> None)"

text \<open>A command of whose answer the script takes element \<open>[0]\<close>.\<close>

definition call_first :: "'s host \<Rightarrow> command \<Rightarrow> 's world \<Rightarrow> (string \<times> 's world) option" where
  "call_first h c w =
     (case exec h (scene w) c of
        Some (RList (n # ns), s') \<Rightarrow> Some (n, \<lparr>scene = s', log = log w @ [C c (Some n)]\<rparr>)
      | _ \<Rightarrow> None)"

section \<open>The script\<close>

subsection \<open>\<open>remove_duplicates\<close>\<close>

definition remove_duplicates :: "'s host \<Rightarrow> 's world \<Rightarrow> 's world option" where
  "remove_duplicates h w = do {
     let all_duplicated_meshes = ls h (scene w) [''*BB_Duplicate_Mesh*dup*''] (Some ''transform'');
     let w = emit (Q (Ls [''*BB_Duplicate_Mesh*dup*''] (Some ''transform''))) w;
     let all_ctrl_circles = ls h (scene w) [''*BB_Duplicate_Mesh*ctrl*''] (Some ''transform'');
     let w = emit (Q (Ls [''*BB_Duplicate_Mesh*ctrl*''] (Some ''transform''))) w;
     let all_blend_shape_nodes = ls h (scene w) [''*BB_Duplicate_Mesh*bs*''] (Some ''blendShape'');
     let w = emit (Q (Ls [''*BB_Duplicate_Mesh*bs*''] (Some ''blendShape''))) w;
     w \<leftarrow> call_unit h (Delete (all_duplicated_meshes @ all_ctrl_circles @ all_blend_shape_nodes)) w;
     let groups = ls h (scene w) [''BB_Duplicates_Grp'', ''BB_Duplicate_Showcase_Grp''] None;
     let w = emit (Q (Ls [''BB_Duplicates_Grp'', ''BB_Duplicate_Showcase_Grp''] None)) w;
     call_unit h (Delete groups) w
   }"

subsection \<open>\<open>calculate_bounding_box\<close>\<close>

type_synonym extent = "pyfloat \<times> pyfloat \<times> pyfloat \<times> pyfloat \<times> pyfloat \<times> pyfloat"

text \<open>The loop over the meshes, with the six running values.\<close>

fun bbox_loop :: "'s host \<Rightarrow> string list \<Rightarrow> extent \<Rightarrow> 's world \<Rightarrow> extent \<times> 's world" where
  "bbox_loop h [] acc w = (acc, w)"
| "bbox_loop h (mesh # meshes) (x_min, y_min, z_min, x_max, y_max, z_max) w =
     (case exactWorldBoundingBox h (scene w) mesh of
        (b0, b1, b2, b3, b4, b5) \<Rightarrow>
          bbox_loop h meshes
            (py_min x_min (Fin b0), py_min y_min (Fin b1), py_min z_min (Fin b2),
             py_max x_max (Fin b3), py_max y_max (Fin b4), py_max z_max (Fin b5))
            (emit (Q (ExactWorldBoundingBox mesh)) w))"

definition calculate_bounding_box ::
  "'s host \<Rightarrow> string list \<Rightarrow> 's world \<Rightarrow> (pyfloat \<times> pyfloat \<times> pyfloat) \<times> 's world" where
  "calculate_bounding_box h meshes w =
     (case bbox_loop h meshes (PosInf, PosInf, PosInf, NegInf, NegInf, NegInf) w of
        ((x_min, y_min, z_min, x_max, y_max, z_max), w') \<Rightarrow>
          ((fsub x_max x_min, fsub y_max y_min, fsub z_max z_min), w'))"

subsection \<open>\<open>duplicate_and_deform\<close>\<close>

datatype outcome = Warned | Declined | Completed

text \<open>The camera and the viewer window (the branch \<open>if showcase_setup\<close>).\<close>

definition showcase ::
  "'s host \<Rightarrow> pyfloat \<Rightarrow> pyfloat \<Rightarrow> string \<Rightarrow> string list \<Rightarrow> 's world \<Rightarrow> 's world option" where
  "showcase h height depth parent_group initial_selection w = do {
     let old_cameras = ls h (scene w) [''renderCam''] None;
     let w = emit (Q (Ls [''renderCam''] None)) w;
     w \<leftarrow> call_unit h (Delete old_cameras) w;
     (camera, w) \<leftarrow> call_first h (Camera ''renderCam'') w;
     w \<leftarrow> call_unit h (Move (Fin 0) (fmul (Fin 0.5) height) (fmul (Fin 6) depth) camera False) w;
     w \<leftarrow> call_unit h (Group ''BB_Duplicate_Showcase_Grp'') w;
     w \<leftarrow> call_unit h (Parent camera ''BB_Duplicate_Showcase_Grp'') w;
     w \<leftarrow> call_unit h (Parent parent_group camera) w;
     let old_window = window_exists h (scene w) ''newWindow'';
     let w = emit (Q (WindowExists ''newWindow'')) w;
     w \<leftarrow> (if old_window then call_unit h (DeleteUI ''newWindow'') w else Some w);
     (new_window, w) \<leftarrow> call_str h (Window ''Showcase'' ''Showcase'') w;
     w \<leftarrow> call_unit h PaneLayout w;
     (panel, w) \<leftarrow> call_str h (ModelPanel ''Camera View'') w;
     w \<leftarrow> call_unit h (ModelPanelCamera panel camera) w;
     w \<leftarrow> call_unit h (ModelEditor panel [(''allObjects'', ''False'')]) w;
     w \<leftarrow> call_unit h (ModelEditor panel [(''polymeshes'', ''True'')]) w;
     w \<leftarrow> call_unit h (ModelEditor panel [(''motionTrails'', ''True'')]) w;
     w \<leftarrow> call_unit h (ModelEditor panel [(''grid'', ''False'')]) w;
     w \<leftarrow> call_unit h (ModelEditor panel
            [(''displayAppearance'', ''smoothShaded''), (''displayTextures'', ''True'')]) w;
     w \<leftarrow> call_unit h (ModelEditor panel [(''nurbsCurves'', ''False'')]) w;
     w \<leftarrow> call_unit h (ShowWindow new_window) w;
     w \<leftarrow> call_unit h (LookThru camera) w;
     w \<leftarrow> call_unit h (Select initial_selection) w;
     call_unit h (ViewFit (Fin 0.5)) w
   }"

text \<open>The body of the inner loop: one duplicate of one mesh, with its blend shape.\<close>

definition deform_mesh :: "'s host \<Rightarrow> nat \<Rightarrow> string \<Rightarrow> string \<Rightarrow> 's world \<Rightarrow> 's world option" where
  "deform_mesh h i group_node mesh w = do {
     (duplicated_mesh, w) \<leftarrow> call_first h (Duplicate mesh) w;
     let mesh_name = last (split_colon mesh);
     (duplicated_mesh, w) \<leftarrow>
        call_str h (Rename duplicated_mesh (''dup_'' @ mesh_name @ ''_'' @ format_02d (i + 1))) w;
     (blend_shape_node, w) \<leftarrow>
        call_first h (BlendShape mesh duplicated_mesh (group_node @ ''_BS'')) w;
     w \<leftarrow> call_unit h (SetAttr (blend_shape_node @ ''.'' @ mesh_name) [Fin 1]) w;
     call_unit h (Parent duplicated_mesh group_node) w
   }"

fun deform_meshes :: "'s host \<Rightarrow> nat \<Rightarrow> string \<Rightarrow> string list \<Rightarrow> 's world \<Rightarrow> 's world option" where
  "deform_meshes h i group_node [] w = Some w"
| "deform_meshes h i group_node (mesh # meshes) w =
     (case deform_mesh h i group_node mesh w of
        None \<Rightarrow> None
      | Some w' \<Rightarrow> deform_meshes h i group_node meshes w')"

definition offset_positions :: "(real \<times> real) list" where
  "offset_positions = [(1.0, 0.7), (-1.0, 0.7), (1.0, 0.0), (-1.0, 0.0)]"

definition rotation_values :: "(real \<times> real \<times> real) list" where
  "rotation_values = [(0, 90, 0), (0, -90, 0), (0, 0, 0), (0, 180, 0)]"

text \<open>
  The placement of the control circle of copy \<open>i\<close>. The tables are read only when
  \<open>num_copies = 4\<close>, where \<open>i < 4\<close>.
\<close>

definition place_circle ::
  "'s host \<Rightarrow> int \<Rightarrow> bool \<Rightarrow> pyfloat \<Rightarrow> pyfloat \<Rightarrow> pyfloat \<Rightarrow> nat \<Rightarrow> string \<Rightarrow>
   's world \<Rightarrow> 's world option" where
  "place_circle h num_copies showcase_setup width height depth i circle_control w =
     (if showcase_setup \<and> num_copies = 4 then do {
        w \<leftarrow> call_unit h (Rotate (Fin (fst (rotation_values ! i)))
                                  (Fin (fst (snd (rotation_values ! i))))
                                  (Fin (snd (snd (rotation_values ! i)))) circle_control) w;
        call_unit h (Move (fmul (Fin (fst (offset_positions ! i))) width)
                          (fmul (Fin (snd (offset_positions ! i))) height)
                          (fmul (Fin (-2)) depth) circle_control True) w
      }
      else call_unit h (Move (fmul (fmul (Fin 1.1) width) (Fin (real (i + 1))))
                             (Fin 0) (Fin 0) circle_control True) w)"

text \<open>The body of the outer loop: copy \<open>i\<close>.\<close>

definition make_copy ::
  "'s host \<Rightarrow> int \<Rightarrow> pyfloat \<Rightarrow> bool \<Rightarrow> string list \<Rightarrow> pyfloat \<Rightarrow> pyfloat \<Rightarrow> pyfloat \<Rightarrow>
   string \<Rightarrow> nat \<Rightarrow> 's world \<Rightarrow> 's world option" where
  "make_copy h num_copies scale_factor showcase_setup selected_meshes width height depth
     parent_group i w = do {
     (group_node, w) \<leftarrow> call_str h (Group (''BB_Duplicate_Mesh_'' @ format_02d (i + 1))) w;
     w \<leftarrow> deform_meshes h i group_node selected_meshes w;
     (circle_control, w) \<leftarrow> call_first h (Circle (group_node @ ''_ctrl'') (halve width)) w;
     w \<leftarrow> call_unit h (Scale scale_factor scale_factor scale_factor circle_control) w;
     w \<leftarrow> call_unit h (SetAttr (circle_control @ ''.overrideEnabled'') [Fin 1]) w;
     w \<leftarrow> call_unit h (SetAttr (circle_control @ ''.overrideRGBColors'') [Fin 1]) w;
     w \<leftarrow> call_unit h (SetAttr (circle_control @ ''.overrideColorRGB'') [Fin 1, Fin 1, Fin 0]) w;
     w \<leftarrow> place_circle h num_copies showcase_setup width height depth i circle_control w;
     w \<leftarrow> call_unit h (ParentConstraint circle_control group_node) w;
     w \<leftarrow> call_unit h (ScaleConstraint circle_control group_node) w;
     w \<leftarrow> call_unit h (Parent circle_control parent_group) w;
     call_unit h (Parent group_node parent_group) w
   }"

fun make_copies ::
  "'s host \<Rightarrow> int \<Rightarrow> pyfloat \<Rightarrow> bool \<Rightarrow> string list \<Rightarrow> pyfloat \<Rightarrow> pyfloat \<Rightarrow> pyfloat \<Rightarrow>
   string \<Rightarrow> nat list \<Rightarrow> 's world \<Rightarrow> 's world option" where
  "make_copies h num_copies scale_factor showcase_setup selected_meshes width height depth
     parent_group [] w = Some w"
| "make_copies h num_copies scale_factor showcase_setup selected_meshes width height depth
     parent_group (i # rest) w =
     (case make_copy h num_copies scale_factor showcase_setup selected_meshes width height depth
             parent_group i w of
        None \<Rightarrow> None
      | Some w' \<Rightarrow> make_copies h num_copies scale_factor showcase_setup selected_meshes
                     width height depth parent_group rest w')"

text \<open>
  What \<open>duplicate_and_deform\<close> does once the two guards are passed (from the test of
  \<open>BB_Duplicates_Grp\<close> to the end); \<open>range(num_copies)\<close> is \<open>[0..<nat num_copies]\<close>.
\<close>

definition build ::
  "'s host \<Rightarrow> int \<Rightarrow> pyfloat \<Rightarrow> bool \<Rightarrow> string list \<Rightarrow> string list \<Rightarrow>
   pyfloat \<times> pyfloat \<times> pyfloat \<Rightarrow> 's world \<Rightarrow> (outcome \<times> 's world) option" where
  "build h num_copies scale_factor showcase_setup initial_selection selected_meshes box w =
     (case box of (width, height, depth) \<Rightarrow> do {
        let old_group = objExists h (scene w) ''BB_Duplicates_Grp'';
        let w = emit (Q (ObjExists ''BB_Duplicates_Grp'')) w;
        w \<leftarrow> (if old_group then remove_duplicates h w else Some w);
        (parent_group, w) \<leftarrow> call_str h (Group ''BB_Duplicates_Grp'') w;
        w \<leftarrow> (if showcase_setup
              then showcase h height depth parent_group initial_selection w else Some w);
        w \<leftarrow> make_copies h num_copies scale_factor showcase_setup selected_meshes
               width height depth parent_group [0..<nat num_copies] w;
        w \<leftarrow> call_unit h (Select initial_selection) w;
        Some (Completed, w)
      })"

text \<open>The selected shapes that are meshes or NURBS surfaces, one \<open>nodeType\<close> query each.\<close>

definition mesh_shapes :: "'s host \<Rightarrow> 's \<Rightarrow> string list" where
  "mesh_shapes h s =
     filter (\<lambda>node. nodeType h s node \<in> {''mesh'', ''nurbsSurface''}) (ls_selected_shapes h s)"

text \<open>The trace up to the test of the selection.\<close>

definition read_selection :: "'s host \<Rightarrow> 's \<Rightarrow> 's world" where
  "read_selection h s =
     \<lparr>scene = s,
      log = [Q LsSelection, Q LsSelectedShapes] @ map (\<lambda>node. Q (NodeType node)) (ls_selected_shapes h s)\<rparr>"

definition duplicate_and_deform ::
  "'s host \<Rightarrow> int \<Rightarrow> pyfloat \<Rightarrow> bool \<Rightarrow> 's \<Rightarrow> (outcome \<times> 's world) option" where
  "duplicate_and_deform h num_copies scale_factor showcase_setup s =
     (let initial_selection = ls_selection h s;
          selected_meshes = mesh_shapes h s;
          w = read_selection h s
      in if selected_meshes = []
         then Some (Warned, emit (Warning ''Warning'' ''Please select a mesh.'') w)
         else
           (case calculate_bounding_box h selected_meshes w of
              (box, w) \<Rightarrow>
                if num_copies > 10
                then (let reply = question h (scene w);
                          w = emit (Question ''Confirmation''
                                ''You're about to create a large number of duplicates. Are you sure you want to do this?'') w
                      in if reply = No then Some (Declined, w)
                         else build h num_copies scale_factor showcase_setup
                                initial_selection selected_meshes box w)
                else build h num_copies scale_factor showcase_setup
                       initial_selection selected_meshes box w))"

section \<open>The trace of a completed call\<close>

text \<open>
  The events that each block of the script leaves in the trace, as functions of the arguments
  and of the names that the host answers. They mirror the blocks above, statement by
  statement; the lemmas on the traces show that a block that returns leaves these events.
\<close>

definition cleanup_events :: "string list \<Rightarrow> string list \<Rightarrow> event list" where
  "cleanup_events found groups =
     [Q (Ls [''*BB_Duplicate_Mesh*dup*''] (Some ''transform'')),
      Q (Ls [''*BB_Duplicate_Mesh*ctrl*''] (Some ''transform'')),
      Q (Ls [''*BB_Duplicate_Mesh*bs*''] (Some ''blendShape'')),
      C (Delete found) None,
      Q (Ls [''BB_Duplicates_Grp'', ''BB_Duplicate_Showcase_Grp''] None),
      C (Delete groups) None]"

definition showcase_events ::
  "pyfloat \<Rightarrow> pyfloat \<Rightarrow> string \<Rightarrow> string list \<Rightarrow> string list \<Rightarrow> string \<Rightarrow> bool \<Rightarrow>
   string \<Rightarrow> string \<Rightarrow> event list" where
  "showcase_events height depth parent_group initial_selection old_cameras camera old_window
     new_window panel =
     [Q (Ls [''renderCam''] None),
      C (Delete old_cameras) None,
      C (Camera ''renderCam'') (Some camera),
      C (Move (Fin 0) (fmul (Fin 0.5) height) (fmul (Fin 6) depth) camera False) None,
      C (Group ''BB_Duplicate_Showcase_Grp'') None,
      C (Parent camera ''BB_Duplicate_Showcase_Grp'') None,
      C (Parent parent_group camera) None,
      Q (WindowExists ''newWindow'')]
     @ (if old_window then [C (DeleteUI ''newWindow'') None] else [])
     @ [C (Window ''Showcase'' ''Showcase'') (Some new_window),
        C PaneLayout None,
        C (ModelPanel ''Camera View'') (Some panel),
        C (ModelPanelCamera panel camera) None,
        C (ModelEditor panel [(''allObjects'', ''False'')]) None,
        C (ModelEditor panel [(''polymeshes'', ''True'')]) None,
        C (ModelEditor panel [(''motionTrails'', ''True'')]) None,
        C (ModelEditor panel [(''grid'', ''False'')]) None,
        C (ModelEditor panel
             [(''displayAppearance'', ''smoothShaded''), (''displayTextures'', ''True'')]) None,
        C (ModelEditor panel [(''nurbsCurves'', ''False'')]) None,
        C (ShowWindow new_window) None,
        C (LookThru camera) None,
        C (Select initial_selection) None,
        C (ViewFit (Fin 0.5)) None]"

text \<open>
  The three names answered in the inner loop: the duplicate, the renamed duplicate and the
  blend shape node.
\<close>

type_synonym mesh_answers = "string \<times> string \<times> string"

definition deform_events :: "nat \<Rightarrow> string \<Rightarrow> string \<Rightarrow> mesh_answers \<Rightarrow> event list" where
  "deform_events i group_node mesh a =
     (case a of (duplicated, renamed, blend_shape_node) \<Rightarrow>
        [C (Duplicate mesh) (Some duplicated),
         C (Rename duplicated (''dup_'' @ last (split_colon mesh) @ ''_'' @ format_02d (i + 1)))
           (Some renamed),
         C (BlendShape mesh renamed (group_node @ ''_BS'')) (Some blend_shape_node),
         C (SetAttr (blend_shape_node @ ''.'' @ last (split_colon mesh)) [Fin 1]) None,
         C (Parent renamed group_node) None])"

definition place_events ::
  "int \<Rightarrow> bool \<Rightarrow> pyfloat \<Rightarrow> pyfloat \<Rightarrow> pyfloat \<Rightarrow> nat \<Rightarrow> string \<Rightarrow> event list" where
  "place_events num_copies showcase_setup width height depth i circle_control =
     (if showcase_setup \<and> num_copies = 4
      then [C (Rotate (Fin (fst (rotation_values ! i)))
                      (Fin (fst (snd (rotation_values ! i))))
                      (Fin (snd (snd (rotation_values ! i)))) circle_control) None,
            C (Move (fmul (Fin (fst (offset_positions ! i))) width)
                    (fmul (Fin (snd (offset_positions ! i))) height)
                    (fmul (Fin (-2)) depth) circle_control True) None]
      else [C (Move (fmul (fmul (Fin 1.1) width) (Fin (real (i + 1))))
                    (Fin 0) (Fin 0) circle_control True) None])"

text \<open>
  The names answered for one copy: the group node, the answers of the inner loop and the
  control circle.
\<close>

type_synonym copy_answers = "string \<times> mesh_answers list \<times> string"

definition copy_events ::
  "int \<Rightarrow> pyfloat \<Rightarrow> bool \<Rightarrow> string list \<Rightarrow> pyfloat \<Rightarrow> pyfloat \<Rightarrow> pyfloat \<Rightarrow> string \<Rightarrow>
   nat \<Rightarrow> copy_answers \<Rightarrow> event list" where
  "copy_events num_copies scale_factor showcase_setup selected_meshes width height depth
     parent_group i a =
     (case a of (group_node, deformed, circle_control) \<Rightarrow>
        C (Group (''BB_Duplicate_Mesh_'' @ format_02d (i + 1))) (Some group_node)
        # concat (map2 (deform_events i group_node) selected_meshes deformed)
        @ [C (Circle (group_node @ ''_ctrl'') (halve width)) (Some circle_control),
           C (Scale scale_factor scale_factor scale_factor circle_control) None,
           C (SetAttr (circle_control @ ''.overrideEnabled'') [Fin 1]) None,
           C (SetAttr (circle_control @ ''.overrideRGBColors'') [Fin 1]) None,
           C (SetAttr (circle_control @ ''.overrideColorRGB'') [Fin 1, Fin 1, Fin 0]) None]
        @ place_events num_copies showcase_setup width height depth i circle_control
        @ [C (ParentConstraint circle_control group_node) None,
           C (ScaleConstraint circle_control group_node) None,
           C (Parent circle_control parent_group) None,
           C (Parent group_node parent_group) None])"

definition confirmation :: event where
  "confirmation = Question ''Confirmation''
     ''You're about to create a large number of duplicates. Are you sure you want to do this?''"

definition build_events ::
  "int \<Rightarrow> pyfloat \<Rightarrow> bool \<Rightarrow> string list \<Rightarrow> string list \<Rightarrow> pyfloat \<times> pyfloat \<times> pyfloat \<Rightarrow>
   event list \<Rightarrow> string \<Rightarrow> event list \<Rightarrow> copy_answers list \<Rightarrow> event list" where
  "build_events num_copies scale_factor showcase_setup initial_selection selected_meshes box
     cleanup parent_group shown copies =
     (case box of (width, height, depth) \<Rightarrow>
        [Q (ObjExists ''BB_Duplicates_Grp'')]
        @ cleanup
        @ [C (Group ''BB_Duplicates_Grp'') (Some parent_group)]
        @ shown
        @ concat (map2 (copy_events num_copies scale_factor showcase_setup selected_meshes
                          width height depth parent_group) [0..<nat num_copies] copies)
        @ [C (Select initial_selection) None])"

text \<open>
  The bounding box that a call measures, and the world in which the construction starts: the
  scene is still the one of the call, the trace holds the queries and, above ten copies, the
  confirmation.
\<close>

definition measured :: "'s host \<Rightarrow> 's \<Rightarrow> pyfloat \<times> pyfloat \<times> pyfloat" where
  "measured h s = fst (calculate_bounding_box h (mesh_shapes h s) (read_selection h s))"

definition ready :: "'s host \<Rightarrow> int \<Rightarrow> 's \<Rightarrow> 's world" where
  "ready h num_copies s =
     \<lparr>scene = s,
      log = log (read_selection h s)
            @ map (\<lambda>mesh. Q (ExactWorldBoundingBox mesh)) (mesh_shapes h s)
            @ (if num_copies > 10 then [confirmation] else [])\<rparr>"

section \<open>Reading a trace\<close>

text \<open>
  The commands of a trace, and the commands of one kind with their arguments and the name
  the script took from the answer.
\<close>

definition commands :: "event list \<Rightarrow> command list" where
  "commands evs = [c. C c r \<leftarrow> evs]"

definition group_names :: "event list \<Rightarrow> string list" where
  "group_names evs = [n. C (Group n) r \<leftarrow> evs]"

definition groups_made :: "event list \<Rightarrow> (string \<times> string) list" where
  "groups_made evs = [(n, g). C (Group n) (Some g) \<leftarrow> evs]"

definition duplicates :: "event list \<Rightarrow> (string \<times> string) list" where
  "duplicates evs = [(mesh, d). C (Duplicate mesh) (Some d) \<leftarrow> evs]"

definition renames :: "event list \<Rightarrow> (string \<times> string) list" where
  "renames evs = [(d, renamed). C (Rename d n) (Some renamed) \<leftarrow> evs]"

definition blend_shapes :: "event list \<Rightarrow> (string \<times> string \<times> string) list" where
  "blend_shapes evs = [(source, target, b). C (BlendShape source target n) (Some b) \<leftarrow> evs]"


definition circles :: "event list \<Rightarrow> (string \<times> pyfloat \<times> string) list" where
  "circles evs = [(n, radius, c). C (Circle n radius) (Some c) \<leftarrow> evs]"

definition controls :: "event list \<Rightarrow> string list" where
  "controls evs = map (\<lambda>(n, radius, c). c) (circles evs)"

definition scalings :: "event list \<Rightarrow> (pyfloat \<times> pyfloat \<times> pyfloat \<times> string) list" where
  "scalings evs = [(x, y, z, obj). C (Scale x y z obj) r \<leftarrow> evs]"

definition parent_constraints :: "event list \<Rightarrow> (string \<times> string) list" where
  "parent_constraints evs = [(c, g). C (ParentConstraint c g) r \<leftarrow> evs]"

definition scale_constraints :: "event list \<Rightarrow> (string \<times> string) list" where
  "scale_constraints evs = [(c, g). C (ScaleConstraint c g) r \<leftarrow> evs]"

definition parentings :: "event list \<Rightarrow> (string \<times> string) list" where
  "parentings evs = [(child, parent). C (Parent child parent) r \<leftarrow> evs]"

definition rotations :: "event list \<Rightarrow> (pyfloat \<times> pyfloat \<times> pyfloat \<times> string) list" where
  "rotations evs = [(x, y, z, obj). C (Rotate x y z obj) r \<leftarrow> evs]"

definition local_moves :: "event list \<Rightarrow> (pyfloat \<times> pyfloat \<times> pyfloat \<times> string) list" where
  "local_moves evs = [(x, y, z, obj). C (Move x y z obj True) r \<leftarrow> evs]"

text \<open>
  Kinds of events: the message boxes; the creation of the camera, of the showcase group or
  of the window; the phases of a call. \<open>precede P R evs\<close> says that no event of kind \<open>P\<close>
  stands at or after the first event of kind \<open>R\<close>: every \<open>P\<close> comes before every \<open>R\<close>.
\<close>

definition is_dialog :: "event \<Rightarrow> bool" where
  "is_dialog e = (case e of Warning title message \<Rightarrow> True | Question title message \<Rightarrow> True | _ \<Rightarrow> False)"


definition is_selection_query :: "event \<Rightarrow> bool" where
  "is_selection_query e =
     (case e of
        Q LsSelection \<Rightarrow> True
      | Q LsSelectedShapes \<Rightarrow> True
      | Q (NodeType n) \<Rightarrow> True
      | _ \<Rightarrow> False)"

definition is_measurement :: "event \<Rightarrow> bool" where
  "is_measurement e = (case e of Q (ExactWorldBoundingBox mesh) \<Rightarrow> True | _ \<Rightarrow> False)"

definition is_showcase_build :: "event \<Rightarrow> bool" where
  "is_showcase_build e =
     (case e of
        C (Camera n) r \<Rightarrow> True
      | C (Window n t) r \<Rightarrow> True
      | C PaneLayout r \<Rightarrow> True
      | C (ModelPanel l) r \<Rightarrow> True
      | C (ModelPanelCamera p c) r \<Rightarrow> True
      | C (ModelEditor p flags) r \<Rightarrow> True
      | C (ShowWindow w) r \<Rightarrow> True
      | C (LookThru c) r \<Rightarrow> True
      | C (ViewFit f) r \<Rightarrow> True
      | _ \<Rightarrow> False)"

definition is_copy_node :: "event \<Rightarrow> bool" where
  "is_copy_node e =
     (case e of
        C (Group n) r \<Rightarrow> prefix ''BB_Duplicate_Mesh_'' n
      | C (Duplicate mesh) r \<Rightarrow> True
      | C (BlendShape source target n) r \<Rightarrow> True
      | C (Circle n radius) r \<Rightarrow> True
      | C (ParentConstraint c g) r \<Rightarrow> True
      | C (ScaleConstraint c g) r \<Rightarrow> True
      | _ \<Rightarrow> False)"

definition precede :: "(event \<Rightarrow> bool) \<Rightarrow> (event \<Rightarrow> bool) \<Rightarrow> event list \<Rightarrow> bool" where
  "precede P R evs = list_all (\<lambda>e. \<not> P e) (dropWhile (\<lambda>e. \<not> R e) evs)"

text \<open>
  What \<open>cmds.select(names)\<close> means for the host: afterwards the selection is \<open>names\<close>.
\<close>

definition select_replaces :: "'s host \<Rightarrow> bool" where
  "select_replaces h =
     (\<forall>s names r s'. exec h s (Select names) = Some (r, s') \<longrightarrow> ls_selection h s' = names)"

section \<open>A small host for concrete runs\<close>

text \<open>
  A host whose scene is only the current selection: a command that makes a node answers
  with the name asked for and selects the new node, \<open>Select\<close> replaces the selection,
  nothing else is kept. The user answers the confirmation with \<open>reply\<close>.
\<close>

definition demo_exec :: "string list \<Rightarrow> command \<Rightarrow> (ret \<times> string list) option" where
  "demo_exec s c =
     (case c of
        Group n \<Rightarrow> Some (RStr n, [n])
      | Camera n \<Rightarrow> Some (RList [n, n @ ''Shape''], [n])
      | Duplicate m \<Rightarrow> Some (RList [m @ ''1''], [m @ ''1''])
      | Rename d n \<Rightarrow> Some (RStr n, s)
      | BlendShape source target n \<Rightarrow> Some (RList [n], s)
      | Circle n r \<Rightarrow> Some (RList [n, ''makeNurbCircle1''], [n])
      | Window n t \<Rightarrow> Some (RStr n, s)
      | ModelPanel l \<Rightarrow> Some (RStr ''modelPanel5'', s)
      | Select names \<Rightarrow> Some (RNone, names)
      | _ \<Rightarrow> Some (RNone, s))"

definition demo_host :: "standard_button \<Rightarrow> string list host" where
  "demo_host reply =
     \<lparr>ls_selection = (\<lambda>s. s),
      ls_selected_shapes = (\<lambda>s. s),
      nodeType = (\<lambda>s n. if n = ''persp'' then ''camera'' else ''mesh''),
      exactWorldBoundingBox =
        (\<lambda>s n. if n = ''pCubeShape1'' then (-1, 0, -1, 1, 2, 1) else (0, 0, 0, 3, 1, 1)),
      objExists = (\<lambda>s n. False),
      ls = (\<lambda>s patterns type. []),
      window_exists = (\<lambda>s n. False),
      question = (\<lambda>s. reply),
      exec = demo_exec\<rparr>"

text \<open>
  The traces of three calls on this host: one copy of a cube; four copies of a cube with the
  showcase; two copies of a cube and a sphere in a namespace.
\<close>

definition plain_trace :: "event list" where
  "plain_trace =
     [Q LsSelection, Q LsSelectedShapes, Q (NodeType ''pCubeShape1''),
      Q (ExactWorldBoundingBox ''pCubeShape1''),
      Q (ObjExists ''BB_Duplicates_Grp''),
      C (Group ''BB_Duplicates_Grp'') (Some ''BB_Duplicates_Grp''),
      C (Group ''BB_Duplicate_Mesh_01'') (Some ''BB_Duplicate_Mesh_01''),
      C (Duplicate ''pCubeShape1'') (Some ''pCubeShape11''),
      C (Rename ''pCubeShape11'' ''dup_pCubeShape1_01'') (Some ''dup_pCubeShape1_01''),
      C (BlendShape ''pCubeShape1'' ''dup_pCubeShape1_01'' ''BB_Duplicate_Mesh_01_BS'')
        (Some ''BB_Duplicate_Mesh_01_BS''),
      C (SetAttr ''BB_Duplicate_Mesh_01_BS.pCubeShape1'' [Fin 1]) None,
      C (Parent ''dup_pCubeShape1_01'' ''BB_Duplicate_Mesh_01'') None,
      C (Circle ''BB_Duplicate_Mesh_01_ctrl'' (Fin 1)) (Some ''BB_Duplicate_Mesh_01_ctrl''),
      C (Scale (Fin 1) (Fin 1) (Fin 1) ''BB_Duplicate_Mesh_01_ctrl'') None,
      C (SetAttr ''BB_Duplicate_Mesh_01_ctrl.overrideEnabled'' [Fin 1]) None,
      C (SetAttr ''BB_Duplicate_Mesh_01_ctrl.overrideRGBColors'' [Fin 1]) None,
      C (SetAttr ''BB_Duplicate_Mesh_01_ctrl.overrideColorRGB'' [Fin 1, Fin 1, Fin 0]) None,
      C (Move (Fin (11 / 5)) (Fin 0) (Fin 0) ''BB_Duplicate_Mesh_01_ctrl'' True) None,
      C (ParentConstraint ''BB_Duplicate_Mesh_01_ctrl'' ''BB_Duplicate_Mesh_01'') None,
      C (ScaleConstraint ''BB_Duplicate_Mesh_01_ctrl'' ''BB_Duplicate_Mesh_01'') None,
      C (Parent ''BB_Duplicate_Mesh_01_ctrl'' ''BB_Duplicates_Grp'') None,
      C (Parent ''BB_Duplicate_Mesh_01'' ''BB_Duplicates_Grp'') None,
      C (Select [''pCubeShape1'']) None]"

definition showcase_trace :: "event list" where
  "showcase_trace =
     [Q LsSelection,
      Q LsSelectedShapes,
      Q (NodeType ''pCubeShape1''),
      Q (ExactWorldBoundingBox ''pCubeShape1''),
      Q (ObjExists ''BB_Duplicates_Grp''),
      C (Group ''BB_Duplicates_Grp'') (Some ''BB_Duplicates_Grp''),
      Q (Ls [''renderCam''] None),
      C (Delete []) None,
      C (Camera ''renderCam'') (Some ''renderCam''),
      C (Move (Fin 0) (Fin 1) (Fin 12) ''renderCam'' False) None,
      C (Group ''BB_Duplicate_Showcase_Grp'') None,
      C (Parent ''renderCam'' ''BB_Duplicate_Showcase_Grp'') None,
      C (Parent ''BB_Duplicates_Grp'' ''renderCam'') None,
      Q (WindowExists ''newWindow''),
      C (Window ''Showcase'' ''Showcase'') (Some ''Showcase''),
      C PaneLayout None,
      C (ModelPanel ''Camera View'') (Some ''modelPanel5''),
      C (ModelPanelCamera ''modelPanel5'' ''renderCam'') None,
      C (ModelEditor ''modelPanel5'' [(''allObjects'', ''False'')]) None,
      C (ModelEditor ''modelPanel5'' [(''polymeshes'', ''True'')]) None,
      C (ModelEditor ''modelPanel5'' [(''motionTrails'', ''True'')]) None,
      C (ModelEditor ''modelPanel5'' [(''grid'', ''False'')]) None,
      C (ModelEditor ''modelPanel5'' [(''displayAppearance'', ''smoothShaded''), (''displayTextures'', ''True'')])
        None,
      C (ModelEditor ''modelPanel5'' [(''nurbsCurves'', ''False'')]) None,
      C (ShowWindow ''Showcase'') None,
      C (LookThru ''renderCam'') None,
      C (Select [''pCubeShape1'']) None,
      C (ViewFit (Fin (1 / 2))) None,
      C (Group ''BB_Duplicate_Mesh_01'') (Some ''BB_Duplicate_Mesh_01''),
      C (Duplicate ''pCubeShape1'') (Some ''pCubeShape11''),
      C (Rename ''pCubeShape11'' ''dup_pCubeShape1_01'') (Some ''dup_pCubeShape1_01''),
      C (BlendShape ''pCubeShape1'' ''dup_pCubeShape1_01'' ''BB_Duplicate_Mesh_01_BS'')
        (Some ''BB_Duplicate_Mesh_01_BS''),
      C (SetAttr ''BB_Duplicate_Mesh_01_BS.pCubeShape1'' [Fin 1]) None,
      C (Parent ''dup_pCubeShape1_01'' ''BB_Duplicate_Mesh_01'') None,
      C (Circle ''BB_Duplicate_Mesh_01_ctrl'' (Fin 1)) (Some ''BB_Duplicate_Mesh_01_ctrl''),
      C (Scale (Fin (1 / 2)) (Fin (1 / 2)) (Fin (1 / 2)) ''BB_Duplicate_Mesh_01_ctrl'') None,
      C (SetAttr ''BB_Duplicate_Mesh_01_ctrl.overrideEnabled'' [Fin 1]) None,
      C (SetAttr ''BB_Duplicate_Mesh_01_ctrl.overrideRGBColors'' [Fin 1]) None,
      C (SetAttr ''BB_Duplicate_Mesh_01_ctrl.overrideColorRGB'' [Fin 1, Fin 1, Fin 0]) None,
      C (Rotate (Fin 0) (Fin 90) (Fin 0) ''BB_Duplicate_Mesh_01_ctrl'') None,
      C (Move (Fin 2) (Fin (7 / 5)) (Fin (- 4)) ''BB_Duplicate_Mesh_01_ctrl'' True) None,
      C (ParentConstraint ''BB_Duplicate_Mesh_01_ctrl'' ''BB_Duplicate_Mesh_01'') None,
      C (ScaleConstraint ''BB_Duplicate_Mesh_01_ctrl'' ''BB_Duplicate_Mesh_01'') None,
      C (Parent ''BB_Duplicate_Mesh_01_ctrl'' ''BB_Duplicates_Grp'') None,
      C (Parent ''BB_Duplicate_Mesh_01'' ''BB_Duplicates_Grp'') None,
      C (Group ''BB_Duplicate_Mesh_02'') (Some ''BB_Duplicate_Mesh_02''),
      C (Duplicate ''pCubeShape1'') (Some ''pCubeShape11''),
      C (Rename ''pCubeShape11'' ''dup_pCubeShape1_02'') (Some ''dup_pCubeShape1_02''),
      C (BlendShape ''pCubeShape1'' ''dup_pCubeShape1_02'' ''BB_Duplicate_Mesh_02_BS'')
        (Some ''BB_Duplicate_Mesh_02_BS''),
      C (SetAttr ''BB_Duplicate_Mesh_02_BS.pCubeShape1'' [Fin 1]) None,
      C (Parent ''dup_pCubeShape1_02'' ''BB_Duplicate_Mesh_02'') None,
      C (Circle ''BB_Duplicate_Mesh_02_ctrl'' (Fin 1)) (Some ''BB_Duplicate_Mesh_02_ctrl''),
      C (Scale (Fin (1 / 2)) (Fin (1 / 2)) (Fin (1 / 2)) ''BB_Duplicate_Mesh_02_ctrl'') None,
      C (SetAttr ''BB_Duplicate_Mesh_02_ctrl.overrideEnabled'' [Fin 1]) None,
      C (SetAttr ''BB_Duplicate_Mesh_02_ctrl.overrideRGBColors'' [Fin 1]) None,
      C (SetAttr ''BB_Duplicate_Mesh_02_ctrl.overrideColorRGB'' [Fin 1, Fin 1, Fin 0]) None,
      C (Rotate (Fin 0) (Fin (- 90)) (Fin 0) ''BB_Duplicate_Mesh_02_ctrl'') None,
      C (Move (Fin (- 2)) (Fin (7 / 5)) (Fin (- 4)) ''BB_Duplicate_Mesh_02_ctrl'' True) None,
      C (ParentConstraint ''BB_Duplicate_Mesh_02_ctrl'' ''BB_Duplicate_Mesh_02'') None,
      C (ScaleConstraint ''BB_Duplicate_Mesh_02_ctrl'' ''BB_Duplicate_Mesh_02'') None,
      C (Parent ''BB_Duplicate_Mesh_02_ctrl'' ''BB_Duplicates_Grp'') None,
      C (Parent ''BB_Duplicate_Mesh_02'' ''BB_Duplicates_Grp'') None,
      C (Group ''BB_Duplicate_Mesh_03'') (Some ''BB_Duplicate_Mesh_03''),
      C (Duplicate ''pCubeShape1'') (Some ''pCubeShape11''),
      C (Rename ''pCubeShape11'' ''dup_pCubeShape1_03'') (Some ''dup_pCubeShape1_03''),
      C (BlendShape ''pCubeShape1'' ''dup_pCubeShape1_03'' ''BB_Duplicate_Mesh_03_BS'')
        (Some ''BB_Duplicate_Mesh_03_BS''),
      C (SetAttr ''BB_Duplicate_Mesh_03_BS.pCubeShape1'' [Fin 1]) None,
      C (Parent ''dup_pCubeShape1_03'' ''BB_Duplicate_Mesh_03'') None,
      C (Circle ''BB_Duplicate_Mesh_03_ctrl'' (Fin 1)) (Some ''BB_Duplicate_Mesh_03_ctrl''),
      C (Scale (Fin (1 / 2)) (Fin (1 / 2)) (Fin (1 / 2)) ''BB_Duplicate_Mesh_03_ctrl'') None,
      C (SetAttr ''BB_Duplicate_Mesh_03_ctrl.overrideEnabled'' [Fin 1]) None,
      C (SetAttr ''BB_Duplicate_Mesh_03_ctrl.overrideRGBColors'' [Fin 1]) None,
      C (SetAttr ''BB_Duplicate_Mesh_03_ctrl.overrideColorRGB'' [Fin 1, Fin 1, Fin 0]) None,
      C (Rotate (Fin 0) (Fin 0) (Fin 0) ''BB_Duplicate_Mesh_03_ctrl'') None,
      C (Move (Fin 2) (Fin 0) (Fin (- 4)) ''BB_Duplicate_Mesh_03_ctrl'' True) None,
      C (ParentConstraint ''BB_Duplicate_Mesh_03_ctrl'' ''BB_Duplicate_Mesh_03'') None,
      C (ScaleConstraint ''BB_Duplicate_Mesh_03_ctrl'' ''BB_Duplicate_Mesh_03'') None,
      C (Parent ''BB_Duplicate_Mesh_03_ctrl'' ''BB_Duplicates_Grp'') None,
      C (Parent ''BB_Duplicate_Mesh_03'' ''BB_Duplicates_Grp'') None,
      C (Group ''BB_Duplicate_Mesh_04'') (Some ''BB_Duplicate_Mesh_04''),
      C (Duplicate ''pCubeShape1'') (Some ''pCubeShape11''),
      C (Rename ''pCubeShape11'' ''dup_pCubeShape1_04'') (Some ''dup_pCubeShape1_04''),
      C (BlendShape ''pCubeShape1'' ''dup_pCubeShape1_04'' ''BB_Duplicate_Mesh_04_BS'')
        (Some ''BB_Duplicate_Mesh_04_BS''),
      C (SetAttr ''BB_Duplicate_Mesh_04_BS.pCubeShape1'' [Fin 1]) None,
      C (Parent ''dup_pCubeShape1_04'' ''BB_Duplicate_Mesh_04'') None,
      C (Circle ''BB_Duplicate_Mesh_04_ctrl'' (Fin 1)) (Some ''BB_Duplicate_Mesh_04_ctrl''),
      C (Scale (Fin (1 / 2)) (Fin (1 / 2)) (Fin (1 / 2)) ''BB_Duplicate_Mesh_04_ctrl'') None,
      C (SetAttr ''BB_Duplicate_Mesh_04_ctrl.overrideEnabled'' [Fin 1]) None,
      C (SetAttr ''BB_Duplicate_Mesh_04_ctrl.overrideRGBColors'' [Fin 1]) None,
      C (SetAttr ''BB_Duplicate_Mesh_04_ctrl.overrideColorRGB'' [Fin 1, Fin 1, Fin 0]) None,
      C (Rotate (Fin 0) (Fin 180) (Fin 0) ''BB_Duplicate_Mesh_04_ctrl'') None,
      C (Move (Fin (- 2)) (Fin 0) (Fin (- 4)) ''BB_Duplicate_Mesh_04_ctrl'' True) None,
      C (ParentConstraint ''BB_Duplicate_Mesh_04_ctrl'' ''BB_Duplicate_Mesh_04'') None,
      C (ScaleConstraint ''BB_Duplicate_Mesh_04_ctrl'' ''BB_Duplicate_Mesh_04'') None,
      C (Parent ''BB_Duplicate_Mesh_04_ctrl'' ''BB_Duplicates_Grp'') None,
      C (Parent ''BB_Duplicate_Mesh_04'' ''BB_Duplicates_Grp'') None,
      C (Select [''pCubeShape1'']) None]"


section \<open>Basic facts\<close>


lemma scene_emit [simp]: "scene (emit e w) = scene w"
  by (simp add: emit_def)

lemma log_emit [simp]: "log (emit e w) = log w @ [e]"
  by (simp add: emit_def)

lemma py_min_Fin [simp]: "py_min (Fin a) (Fin b) = Fin (min a b)"
  by (auto simp: py_min_def)

lemma py_max_Fin [simp]: "py_max (Fin a) (Fin b) = Fin (max a b)"
  by (auto simp: py_max_def)

lemma py_min_PosInf [simp]: "py_min PosInf (Fin b) = Fin b"
  by (simp add: py_min_def)

lemma py_max_NegInf [simp]: "py_max NegInf (Fin b) = Fin b"
  by (simp add: py_max_def)

section \<open>The bounding box\<close>

lemma bbox_loop_world:
  "snd (bbox_loop h meshes acc w) =
     \<lparr>scene = scene w, log = log w @ map (\<lambda>mesh. Q (ExactWorldBoundingBox mesh)) meshes\<rparr>"
proof (induction meshes arbitrary: acc w)
  case Nil
  show ?case by simp
next
  case (Cons mesh meshes)
  obtain x_min y_min z_min x_max y_max z_max
    where acc: "acc = (x_min, y_min, z_min, x_max, y_max, z_max)"
    by (cases acc) auto
  show ?case
    unfolding acc by (simp add: Cons.IH split: prod.splits)
qed






section \<open>What a block that returns leaves in the trace\<close>

lemma call_unit_Some:
  "call_unit h c w = Some w' \<Longrightarrow>
     log w' = log w @ [C c None] \<and> (\<exists>r. exec h (scene w) c = Some (r, scene w'))"
  by (auto simp: call_unit_def split: option.splits)

lemma call_str_Some:
  "call_str h c w = Some (n, w') \<Longrightarrow>
     log w' = log w @ [C c (Some n)] \<and> exec h (scene w) c = Some (RStr n, scene w')"
  by (auto simp: call_str_def split: option.splits ret.splits)

lemma call_first_Some:
  "call_first h c w = Some (n, w') \<Longrightarrow>
     log w' = log w @ [C c (Some n)] \<and> (\<exists>ns. exec h (scene w) c = Some (RList (n # ns), scene w'))"
  by (auto simp: call_first_def split: option.splits ret.splits list.splits)

lemma call_unit_log: "call_unit h c w = Some w' \<Longrightarrow> log w' = log w @ [C c None]"
  by (simp add: call_unit_Some)

lemma call_str_log: "call_str h c w = Some (n, w') \<Longrightarrow> log w' = log w @ [C c (Some n)]"
  by (simp add: call_str_Some)

lemma call_first_log: "call_first h c w = Some (n, w') \<Longrightarrow> log w' = log w @ [C c (Some n)]"
  by (simp add: call_first_Some)

lemma remove_duplicates_log:
  assumes "remove_duplicates h w = Some w'"
  shows "\<exists>found groups. log w' = log w @ cleanup_events found groups"
  using assms
  by (auto simp: remove_duplicates_def cleanup_events_def Let_def bind_eq_Some_conv
           dest!: call_unit_log)

lemma showcase_log_cases:
  assumes "showcase h height depth parent_group initial_selection w = Some w'"
  shows "\<exists>old_cameras camera new_window panel.
           log w' = log w @ showcase_events height depth parent_group initial_selection
                              old_cameras camera True new_window panel
         \<or> log w' = log w @ showcase_events height depth parent_group initial_selection
                              old_cameras camera False new_window panel"
  using assms
  unfolding showcase_def Let_def showcase_events_def
  by (auto simp: bind_eq_Some_conv 
           dest!: call_unit_log call_str_log call_first_log split: if_splits)

lemma showcase_log:
  assumes "showcase h height depth parent_group initial_selection w = Some w'"
  shows "\<exists>old_cameras camera old_window new_window panel.
           log w' = log w @ showcase_events height depth parent_group initial_selection
                              old_cameras camera old_window new_window panel"
  using showcase_log_cases [OF assms] by blast

lemma deform_mesh_log:
  assumes "deform_mesh h i group_node mesh w = Some w'"
  shows "\<exists>a. log w' = log w @ deform_events i group_node mesh a"
  using assms
  unfolding deform_mesh_def Let_def deform_events_def
  by (auto simp: bind_eq_Some_conv dest!: call_unit_log call_str_log call_first_log)

lemma deform_meshes_log:
  assumes "deform_meshes h i group_node meshes w = Some w'"
  shows "\<exists>deformed. length deformed = length meshes
           \<and> log w' = log w @ concat (map2 (deform_events i group_node) meshes deformed)"
  using assms
proof (induction meshes arbitrary: w)
  case Nil
  then show ?case by simp
next
  case (Cons mesh meshes)
  from Cons.prems obtain w1
    where first: "deform_mesh h i group_node mesh w = Some w1"
      and others: "deform_meshes h i group_node meshes w1 = Some w'"
    by (auto split: option.splits)
  from deform_mesh_log [OF first] obtain a
    where a: "log w1 = log w @ deform_events i group_node mesh a" ..
  from Cons.IH [OF others] obtain deformed
    where len: "length deformed = length meshes"
      and rest: "log w' = log w1 @ concat (map2 (deform_events i group_node) meshes deformed)"
    by blast
  have "length (a # deformed) = length (mesh # meshes)"
    using len by simp
  moreover have "log w' = log w @ concat (map2 (deform_events i group_node) (mesh # meshes) (a # deformed))"
    using a rest by simp
  ultimately show ?case by blast
qed

lemma place_circle_log:
  assumes "place_circle h num_copies showcase_setup width height depth i circle_control w = Some w'"
  shows "log w' = log w @ place_events num_copies showcase_setup width height depth i circle_control"
  using assms
  unfolding place_circle_def place_events_def
  by (auto simp: bind_eq_Some_conv dest!: call_unit_log split: if_splits)

lemma make_copy_log:
  assumes "make_copy h num_copies scale_factor showcase_setup selected_meshes width height depth
             parent_group i w = Some w'"
  shows "\<exists>a. length (fst (snd a)) = length selected_meshes
           \<and> log w' = log w @ copy_events num_copies scale_factor showcase_setup selected_meshes
                                width height depth parent_group i a"
  using assms
  unfolding make_copy_def copy_events_def
  by (auto simp: bind_eq_Some_conv
           dest!: call_unit_log call_str_log call_first_log place_circle_log deform_meshes_log)

lemma make_copies_log:
  assumes "make_copies h num_copies scale_factor showcase_setup selected_meshes width height depth
             parent_group indices w = Some w'"
  shows "\<exists>copies. length copies = length indices
           \<and> (\<forall>a \<in> set copies. length (fst (snd a)) = length selected_meshes)
           \<and> log w' = log w @ concat (map2 (copy_events num_copies scale_factor showcase_setup
                                selected_meshes width height depth parent_group) indices copies)"
  using assms
proof (induction indices arbitrary: w)
  case Nil
  then show ?case by simp
next
  case (Cons i indices)
  from Cons.prems obtain w1
    where first: "make_copy h num_copies scale_factor showcase_setup selected_meshes
                    width height depth parent_group i w = Some w1"
      and others: "make_copies h num_copies scale_factor showcase_setup selected_meshes
                    width height depth parent_group indices w1 = Some w'"
    by (auto split: option.splits)
  from make_copy_log [OF first] obtain a
    where a_len: "length (fst (snd a)) = length selected_meshes"
      and a: "log w1 = log w @ copy_events num_copies scale_factor showcase_setup selected_meshes
                                width height depth parent_group i a"
    by blast
  from Cons.IH [OF others] obtain copies
    where len: "length copies = length indices"
      and lens: "\<forall>a \<in> set copies. length (fst (snd a)) = length selected_meshes"
      and rest: "log w' = log w1 @ concat (map2 (copy_events num_copies scale_factor
                   showcase_setup selected_meshes width height depth parent_group) indices copies)"
    by blast
  have "length (a # copies) = length (i # indices)"
    using len by simp
  moreover have "\<forall>b \<in> set (a # copies). length (fst (snd b)) = length selected_meshes"
    using a_len lens by simp
  moreover have "log w' = log w @ concat (map2 (copy_events num_copies scale_factor
                   showcase_setup selected_meshes width height depth parent_group)
                   (i # indices) (a # copies))"
    using a rest by simp
  ultimately show ?case by blast
qed

lemma build_log:
  assumes "build h num_copies scale_factor showcase_setup initial_selection selected_meshes
             (width, height, depth) w = Some (out, w')"
  shows "\<exists>cleanup parent_group shown copies.
           (cleanup = [] \<or> (\<exists>found groups. cleanup = cleanup_events found groups))
         \<and> (if showcase_setup
            then \<exists>old_cameras camera old_window new_window panel.
                   shown = showcase_events height depth parent_group initial_selection
                             old_cameras camera old_window new_window panel
            else shown = [])
         \<and> length copies = nat num_copies
         \<and> (\<forall>a \<in> set copies. length (fst (snd a)) = length selected_meshes)
         \<and> log w' = log w @ build_events num_copies scale_factor showcase_setup
                               initial_selection selected_meshes (width, height, depth)
                               cleanup parent_group shown copies"
proof -
  let ?w0 = "emit (Q (ObjExists ''BB_Duplicates_Grp'')) w"
  from assms obtain w1 parent_group w2 w3 w4
    where clean: "(if objExists h (scene w) ''BB_Duplicates_Grp''
                   then remove_duplicates h ?w0 else Some ?w0) = Some w1"
      and grp: "call_str h (Group ''BB_Duplicates_Grp'') w1 = Some (parent_group, w2)"
      and shw: "(if showcase_setup
                 then showcase h height depth parent_group initial_selection w2
                 else Some w2) = Some w3"
      and cps: "make_copies h num_copies scale_factor showcase_setup selected_meshes
                  width height depth parent_group [0..<nat num_copies] w3 = Some w4"
      and sel: "call_unit h (Select initial_selection) w4 = Some w'"
    unfolding build_def Let_def
    by (auto simp: bind_eq_Some_conv)
  have "\<exists>cleanup. (cleanup = [] \<or> (\<exists>found groups. cleanup = cleanup_events found groups))
           \<and> log w1 = log w @ [Q (ObjExists ''BB_Duplicates_Grp'')] @ cleanup"
  proof (cases "objExists h (scene w) ''BB_Duplicates_Grp''")
    case True
    with clean have "remove_duplicates h ?w0 = Some w1" by simp
    from remove_duplicates_log [OF this] obtain found groups
      where "log w1 = log ?w0 @ cleanup_events found groups" by blast
    then show ?thesis
      by (intro exI [of _ "cleanup_events found groups"]) auto
  next
    case False
    with clean have "w1 = ?w0" by simp
    then show ?thesis
      by (intro exI [of _ "[]"]) simp
  qed
  then obtain cleanup
    where cleanup: "cleanup = [] \<or> (\<exists>found groups. cleanup = cleanup_events found groups)"
      and log1: "log w1 = log w @ [Q (ObjExists ''BB_Duplicates_Grp'')] @ cleanup"
    by blast
  have "\<exists>shown. (if showcase_setup
            then \<exists>old_cameras camera old_window new_window panel.
                   shown = showcase_events height depth parent_group initial_selection
                             old_cameras camera old_window new_window panel
            else shown = [])
           \<and> log w3 = log w2 @ shown"
  proof (cases showcase_setup)
    case True
    with shw have "showcase h height depth parent_group initial_selection w2 = Some w3"
      by simp
    from showcase_log [OF this] obtain old_cameras camera old_window new_window panel
      where "log w3 = log w2 @ showcase_events height depth parent_group initial_selection
                                 old_cameras camera old_window new_window panel"
      by blast
    with True show ?thesis
      by (intro exI [of _ "showcase_events height depth parent_group initial_selection
                             old_cameras camera old_window new_window panel"])
         (simp, blast)
  next
    case False
    with shw have "w3 = w2" by simp
    with False show ?thesis
      by (intro exI [of _ "[]"]) simp
  qed
  then obtain shown
    where shown: "if showcase_setup
            then \<exists>old_cameras camera old_window new_window panel.
                   shown = showcase_events height depth parent_group initial_selection
                             old_cameras camera old_window new_window panel
            else shown = []"
      and log3: "log w3 = log w2 @ shown"
    by blast
  from make_copies_log [OF cps] obtain copies
    where len: "length copies = nat num_copies"
      and lens: "\<forall>a \<in> set copies. length (fst (snd a)) = length selected_meshes"
      and log4: "log w4 = log w3 @ concat (map2 (copy_events num_copies scale_factor
                   showcase_setup selected_meshes width height depth parent_group)
                   [0..<nat num_copies] copies)"
    by auto
  have "log w' = log w @ build_events num_copies scale_factor showcase_setup
                               initial_selection selected_meshes (width, height, depth)
                               cleanup parent_group shown copies"
    using log1 call_str_log [OF grp] log3 log4 call_unit_log [OF sel]
    by (simp add: build_events_def)
  with cleanup shown len lens show ?thesis by blast
qed

section \<open>The outcomes of a call\<close>

lemma scene_read_selection [simp]: "scene (read_selection h s) = s"
  by (simp add: read_selection_def)

lemma calculate_bounding_box_world:
  "snd (calculate_bounding_box h meshes w) =
     \<lparr>scene = scene w, log = log w @ map (\<lambda>mesh. Q (ExactWorldBoundingBox mesh)) meshes\<rparr>"
  using bbox_loop_world [of h meshes "(PosInf, PosInf, PosInf, NegInf, NegInf, NegInf)" w]
  by (auto simp: calculate_bounding_box_def split: prod.splits)

lemma run_warned:
  assumes "mesh_shapes h s = []"
  shows "duplicate_and_deform h num_copies scale_factor showcase_setup s =
           Some (Warned, \<lparr>scene = s,
                           log = log (read_selection h s)
                                 @ [Warning ''Warning'' ''Please select a mesh.'']\<rparr>)"
  using assms by (simp add: duplicate_and_deform_def emit_def read_selection_def)

lemma run_declined:
  assumes "mesh_shapes h s \<noteq> []" and "num_copies > 10" and "question h s = No"
  shows "duplicate_and_deform h num_copies scale_factor showcase_setup s =
           Some (Declined, ready h num_copies s)"
proof -
  obtain box w where cb: "calculate_bounding_box h (mesh_shapes h s) (read_selection h s) = (box, w)"
    by (cases "calculate_bounding_box h (mesh_shapes h s) (read_selection h s)") auto
  have w: "w = \<lparr>scene = s, log = log (read_selection h s)
              @ map (\<lambda>mesh. Q (ExactWorldBoundingBox mesh)) (mesh_shapes h s)\<rparr>"
    using calculate_bounding_box_world [of h "mesh_shapes h s" "read_selection h s"] cb by simp
  show ?thesis
    using assms
    by (simp add: duplicate_and_deform_def Let_def cb w ready_def emit_def confirmation_def)
qed

lemma run_proceeds:
  assumes "mesh_shapes h s \<noteq> []" and "num_copies > 10 \<longrightarrow> question h s \<noteq> No"
  shows "duplicate_and_deform h num_copies scale_factor showcase_setup s =
           build h num_copies scale_factor showcase_setup (ls_selection h s) (mesh_shapes h s)
             (measured h s) (ready h num_copies s)"
proof -
  obtain box w where cb: "calculate_bounding_box h (mesh_shapes h s) (read_selection h s) = (box, w)"
    by (cases "calculate_bounding_box h (mesh_shapes h s) (read_selection h s)") auto
  have w: "w = \<lparr>scene = s, log = log (read_selection h s)
              @ map (\<lambda>mesh. Q (ExactWorldBoundingBox mesh)) (mesh_shapes h s)\<rparr>"
    using calculate_bounding_box_world [of h "mesh_shapes h s" "read_selection h s"] cb by simp
  have box: "measured h s = box"
    by (simp add: measured_def cb)
  show ?thesis
    using assms
    by (simp add: duplicate_and_deform_def Let_def cb w box ready_def emit_def confirmation_def)
qed

lemma build_Completed:
  "build h num_copies scale_factor showcase_setup initial_selection selected_meshes box w
     = Some (out, w') \<Longrightarrow> out = Completed"
  by (auto simp: build_def Let_def bind_eq_Some_conv split: prod.splits)

lemma run_outcome:
  assumes "duplicate_and_deform h num_copies scale_factor showcase_setup s = Some (out, w')"
  shows "(out = Warned \<longleftrightarrow> mesh_shapes h s = [])
       \<and> (out = Declined \<longleftrightarrow> mesh_shapes h s \<noteq> [] \<and> num_copies > 10 \<and> question h s = No)"
proof (cases "mesh_shapes h s = []")
  case True
  with assms run_warned [OF True, of num_copies scale_factor showcase_setup] show ?thesis by auto
next
  case False
  show ?thesis
  proof (cases "num_copies > 10 \<and> question h s = No")
    case True
    with assms False run_declined [of h s num_copies scale_factor showcase_setup]
    show ?thesis by auto
  next
    case no: False
    then have "num_copies > 10 \<longrightarrow> question h s \<noteq> No" by blast
    from run_proceeds [OF False this, of scale_factor showcase_setup] assms
    have "build h num_copies scale_factor showcase_setup (ls_selection h s) (mesh_shapes h s)
            (measured h s) (ready h num_copies s) = Some (out, w')" by simp
    then have "out = Completed" by (rule build_Completed)
    with False no show ?thesis by auto
  qed
qed

lemma completed_run:
  assumes "duplicate_and_deform h num_copies scale_factor showcase_setup s = Some (Completed, w')"
  shows "mesh_shapes h s \<noteq> []"
    and "num_copies > 10 \<longrightarrow> question h s \<noteq> No"
    and "build h num_copies scale_factor showcase_setup (ls_selection h s) (mesh_shapes h s)
           (measured h s) (ready h num_copies s) = Some (Completed, w')"
proof -
  from run_outcome [OF assms] show a: "mesh_shapes h s \<noteq> []" by simp
  from run_outcome [OF assms] a show b: "num_copies > 10 \<longrightarrow> question h s \<noteq> No" by auto
  from run_proceeds [OF a b, of scale_factor showcase_setup] assms
  show "build h num_copies scale_factor showcase_setup (ls_selection h s) (mesh_shapes h s)
           (measured h s) (ready h num_copies s) = Some (Completed, w')" by simp
qed

lemma completed_log:
  assumes "duplicate_and_deform h num_copies scale_factor showcase_setup s = Some (Completed, w')"
  shows "\<exists>cleanup parent_group shown copies.
           (cleanup = [] \<or> (\<exists>found groups. cleanup = cleanup_events found groups))
         \<and> (if showcase_setup
            then \<exists>old_cameras camera old_window new_window panel.
                   shown = showcase_events (fst (snd (measured h s))) (snd (snd (measured h s)))
                             parent_group (ls_selection h s)
                             old_cameras camera old_window new_window panel
            else shown = [])
         \<and> length copies = nat num_copies
         \<and> (\<forall>a \<in> set copies. length (fst (snd a)) = length (mesh_shapes h s))
         \<and> log w' = log (ready h num_copies s)
                     @ build_events num_copies scale_factor showcase_setup
                         (ls_selection h s) (mesh_shapes h s) (measured h s)
                         cleanup parent_group shown copies"
proof -
  obtain width height depth where m: "measured h s = (width, height, depth)"
    by (cases "measured h s") auto
  from completed_run(3) [OF assms]
  have "build h num_copies scale_factor showcase_setup (ls_selection h s) (mesh_shapes h s)
           (width, height, depth) (ready h num_copies s) = Some (Completed, w')"
    by (simp add: m)
  from build_log [OF this] show ?thesis
    unfolding m fst_conv snd_conv .
qed

section \<open>The two guards\<close>

lemma commands_simps [simp]:
  "commands [] = []"
  "commands (Q q # evs) = commands evs"
  "commands (C c r # evs) = c # commands evs"
  "commands (Warning t m # evs) = commands evs"
  "commands (Question t m # evs) = commands evs"
  "commands (evs @ evs') = commands evs @ commands evs'"
  by (simp_all add: commands_def)

lemma commands_queries [simp]: "commands (map (\<lambda>x. Q (f x)) xs) = []"
  by (induction xs) simp_all

lemma list_all_concat_map2:
  assumes "\<And>x y. list_all P (f x y)"
  shows "list_all P (concat (map2 f xs ys))"
  using assms by (auto simp: list_all_iff)

lemma no_dialog_cleanup: "list_all (\<lambda>e. \<not> is_dialog e) (cleanup_events found groups)"
  by (simp add: cleanup_events_def is_dialog_def)

lemma no_dialog_showcase:
  "list_all (\<lambda>e. \<not> is_dialog e)
     (showcase_events height depth parent_group initial_selection old_cameras camera old_window
        new_window panel)"
  by (simp add: showcase_events_def is_dialog_def)

lemma no_dialog_deform: "list_all (\<lambda>e. \<not> is_dialog e) (deform_events i group_node mesh a)"
  by (simp add: deform_events_def is_dialog_def split: prod.splits)

lemma no_dialog_place:
  "list_all (\<lambda>e. \<not> is_dialog e)
     (place_events num_copies showcase_setup width height depth i circle_control)"
  by (simp add: place_events_def is_dialog_def)

lemma no_dialog_copy:
  "list_all (\<lambda>e. \<not> is_dialog e)
     (copy_events num_copies scale_factor showcase_setup selected_meshes width height depth
        parent_group i a)"
  by (simp add: copy_events_def no_dialog_place list_all_concat_map2 no_dialog_deform
           split: prod.splits)
    (simp add: is_dialog_def)

lemma no_dialog_build:
  assumes "cleanup = [] \<or> (\<exists>found groups. cleanup = cleanup_events found groups)"
    and "shown = [] \<or> (\<exists>height depth initial_selection old_cameras camera old_window new_window panel.
                   shown = showcase_events height depth parent_group initial_selection
                             old_cameras camera old_window new_window panel)"
  shows "list_all (\<lambda>e. \<not> is_dialog e)
     (build_events num_copies scale_factor showcase_setup initial_selection selected_meshes box
        cleanup parent_group shown copies)"
proof -
  have c: "list_all (\<lambda>e. \<not> is_dialog e) cleanup"
    using assms(1) no_dialog_cleanup by auto
  have s: "list_all (\<lambda>e. \<not> is_dialog e) shown"
    using assms(2) no_dialog_showcase by auto
  show ?thesis
    by (simp add: build_events_def c s list_all_concat_map2 no_dialog_copy split: prod.splits)
      (simp add: is_dialog_def)
qed

lemma no_dialog_queries: "list_all (\<lambda>e. \<not> is_dialog e) (map (\<lambda>x. Q (f x)) xs)"
  by (induction xs) (simp_all add: is_dialog_def)

lemma confirmation_ready: "confirmation \<in> set (log (ready h num_copies s)) \<longleftrightarrow> 10 < num_copies"
  by (auto simp: ready_def read_selection_def confirmation_def)

lemma commands_ready: "commands (log (ready h num_copies s)) = []"
  by (simp add: ready_def read_selection_def confirmation_def)

lemma scene_ready [simp]: "scene (ready h num_copies s) = s"
  by (simp add: ready_def)

lemma is_dialog_confirmation: "is_dialog confirmation"
  by (simp add: is_dialog_def confirmation_def)

lemma confirmation_returned:
  assumes "duplicate_and_deform h num_copies scale_factor showcase_setup s = Some (out, w')"
    and "mesh_shapes h s \<noteq> []"
  shows "confirmation \<in> set (log w') \<longleftrightarrow> 10 < num_copies"
proof (cases "10 < num_copies \<and> question h s = No")
  case True
  with assms run_declined [of h s num_copies scale_factor showcase_setup]
  have "w' = ready h num_copies s" by simp
  then show ?thesis by (simp add: confirmation_ready)
next
  case False
  then have go: "num_copies > 10 \<longrightarrow> question h s \<noteq> No" by blast
  from run_proceeds [OF assms(2) go, of scale_factor showcase_setup] assms(1)
  have b: "build h num_copies scale_factor showcase_setup (ls_selection h s) (mesh_shapes h s)
            (measured h s) (ready h num_copies s) = Some (out, w')" by simp
  obtain width height depth where m: "measured h s = (width, height, depth)"
    by (cases "measured h s") auto
  from build_log [OF b [unfolded m]] obtain cleanup parent_group shown copies
    where c: "cleanup = [] \<or> (\<exists>found groups. cleanup = cleanup_events found groups)"
      and sh: "if showcase_setup
            then \<exists>old_cameras camera old_window new_window panel.
                   shown = showcase_events height depth parent_group (ls_selection h s)
                             old_cameras camera old_window new_window panel
            else shown = []"
      and l: "log w' = log (ready h num_copies s)
                @ build_events num_copies scale_factor showcase_setup (ls_selection h s)
                    (mesh_shapes h s) (width, height, depth) cleanup parent_group shown copies"
    by blast
  from sh have sh': "shown = [] \<or> (\<exists>height depth initial_selection old_cameras camera
                   old_window new_window panel.
                   shown = showcase_events height depth parent_group initial_selection
                             old_cameras camera old_window new_window panel)"
    by (cases showcase_setup; simp; blast)
  have "confirmation \<notin> set (build_events num_copies scale_factor showcase_setup
          (ls_selection h s) (mesh_shapes h s) (width, height, depth) cleanup parent_group
          shown copies)"
    using no_dialog_build [OF c sh'] is_dialog_confirmation
    by (auto simp: list_all_iff)
  then show ?thesis
    by (simp add: l confirmation_ready)
qed

text \<open>
  Claim C3. When the selection holds no shape of type mesh or nurbsSurface, the call shows
  the warning and returns at once: the scene is the one it was called in, and the trace holds
  only the queries of the selection and the warning, no command of the host.
\<close>

theorem empty_selection_warns:
  "mesh_shapes h s = [] \<Longrightarrow>
   duplicate_and_deform h num_copies scale_factor showcase_setup s =
     Some (Warned,
           \<lparr>scene = s,
            log = [Q LsSelection, Q LsSelectedShapes]
                  @ map (\<lambda>node. Q (NodeType node)) (ls_selected_shapes h s)
                  @ [Warning ''Warning'' ''Please select a mesh.'']\<rparr>)"
  using run_warned [of h s num_copies scale_factor showcase_setup]
  by (simp add: read_selection_def)

theorem empty_selection_warns_witness:
  "mesh_shapes (demo_host Yes) [''persp''] = [] \<and>
   duplicate_and_deform (demo_host Yes) 3 (Fin 1) True [''persp''] =
     Some (Warned,
           \<lparr>scene = [''persp''],
            log = [Q LsSelection, Q LsSelectedShapes, Q (NodeType ''persp''),
                   Warning ''Warning'' ''Please select a mesh.'']\<rparr>)"
proof -
  have none: "mesh_shapes (demo_host Yes) [''persp''] = []"
    by (simp add: mesh_shapes_def demo_host_def)
  from empty_selection_warns [OF none, of 3 "Fin 1" True] none
  show ?thesis by (simp add: demo_host_def)
qed

text \<open>
  Claim C4. With a non-empty selection of meshes: when \<open>num_copies > 10\<close> the confirmation
  is asked; on the answer No the call returns with the scene unchanged and no command issued,
  on the answer Yes it goes on with the construction; when \<open>num_copies \<le> 10\<close> no
  confirmation is asked and the call goes on directly.
\<close>

theorem confirmation_guard:
  assumes "mesh_shapes h s \<noteq> []"
  shows "(10 < num_copies \<and> question h s = No \<longrightarrow>
            duplicate_and_deform h num_copies scale_factor showcase_setup s =
              Some (Declined, ready h num_copies s))
       \<and> (10 < num_copies \<and> question h s = Yes \<longrightarrow>
            duplicate_and_deform h num_copies scale_factor showcase_setup s =
              build h num_copies scale_factor showcase_setup (ls_selection h s)
                (mesh_shapes h s) (measured h s) (ready h num_copies s))
       \<and> (num_copies \<le> 10 \<longrightarrow>
            duplicate_and_deform h num_copies scale_factor showcase_setup s =
              build h num_copies scale_factor showcase_setup (ls_selection h s)
                (mesh_shapes h s) (measured h s) (ready h num_copies s))
       \<and> scene (ready h num_copies s) = s
       \<and> commands (log (ready h num_copies s)) = []
       \<and> (\<forall>out w'. duplicate_and_deform h num_copies scale_factor showcase_setup s = Some (out, w')
             \<longrightarrow> (confirmation \<in> set (log w') \<longleftrightarrow> 10 < num_copies))"
proof (intro conjI impI allI)
  assume "10 < num_copies \<and> question h s = No"
  then show "duplicate_and_deform h num_copies scale_factor showcase_setup s =
               Some (Declined, ready h num_copies s)"
    using run_declined [OF assms] by simp
next
  assume "10 < num_copies \<and> question h s = Yes"
  then have "num_copies > 10 \<longrightarrow> question h s \<noteq> No" by simp
  then show "duplicate_and_deform h num_copies scale_factor showcase_setup s =
              build h num_copies scale_factor showcase_setup (ls_selection h s)
                (mesh_shapes h s) (measured h s) (ready h num_copies s)"
    by (rule run_proceeds [OF assms])
next
  assume "num_copies \<le> 10"
  then have "num_copies > 10 \<longrightarrow> question h s \<noteq> No" by simp
  then show "duplicate_and_deform h num_copies scale_factor showcase_setup s =
              build h num_copies scale_factor showcase_setup (ls_selection h s)
                (mesh_shapes h s) (measured h s) (ready h num_copies s)"
    by (rule run_proceeds [OF assms])
next
  show "scene (ready h num_copies s) = s" by simp
next
  show "commands (log (ready h num_copies s)) = []" by (rule commands_ready)
next
  fix out w'
  assume "duplicate_and_deform h num_copies scale_factor showcase_setup s = Some (out, w')"
  then show "confirmation \<in> set (log w') \<longleftrightarrow> 10 < num_copies"
    using assms by (rule confirmation_returned)
qed

theorem confirmation_guard_witness:
  "mesh_shapes (demo_host No) [''pCubeShape1''] \<noteq> []
   \<and> (10 :: int) < 11 \<and> question (demo_host No) [''pCubeShape1''] = No
   \<and> duplicate_and_deform (demo_host No) 11 (Fin 1) False [''pCubeShape1''] =
       Some (Declined, ready (demo_host No) 11 [''pCubeShape1''])
   \<and> confirmation \<in> set (log (ready (demo_host No) 11 [''pCubeShape1'']))
   \<and> mesh_shapes (demo_host Yes) [''pCubeShape1''] \<noteq> []
   \<and> question (demo_host Yes) [''pCubeShape1''] = Yes
   \<and> duplicate_and_deform (demo_host Yes) 11 (Fin 1) False [''pCubeShape1''] =
       build (demo_host Yes) 11 (Fin 1) False (ls_selection (demo_host Yes) [''pCubeShape1''])
         (mesh_shapes (demo_host Yes) [''pCubeShape1''])
         (measured (demo_host Yes) [''pCubeShape1'']) (ready (demo_host Yes) 11 [''pCubeShape1''])
   \<and> (2 :: int) \<le> 10
   \<and> duplicate_and_deform (demo_host Yes) 2 (Fin 1) False [''pCubeShape1''] =
       build (demo_host Yes) 2 (Fin 1) False (ls_selection (demo_host Yes) [''pCubeShape1''])
         (mesh_shapes (demo_host Yes) [''pCubeShape1''])
         (measured (demo_host Yes) [''pCubeShape1'']) (ready (demo_host Yes) 2 [''pCubeShape1''])"
proof -
  have no_meshes: "mesh_shapes (demo_host No) [''pCubeShape1''] \<noteq> []"
    by (simp add: mesh_shapes_def demo_host_def)
  have yes_meshes: "mesh_shapes (demo_host Yes) [''pCubeShape1''] \<noteq> []"
    by (simp add: mesh_shapes_def demo_host_def)
  have no: "question (demo_host No) [''pCubeShape1''] = No"
    by (simp add: demo_host_def)
  have yes: "question (demo_host Yes) [''pCubeShape1''] = Yes"
    by (simp add: demo_host_def)
  note declined = confirmation_guard [OF no_meshes, of 11 "Fin 1" False]
  note confirmed = confirmation_guard [OF yes_meshes, of 11 "Fin 1" False]
  note direct = confirmation_guard [OF yes_meshes, of 2 "Fin 1" False]
  have a: "duplicate_and_deform (demo_host No) 11 (Fin 1) False [''pCubeShape1''] =
       Some (Declined, ready (demo_host No) 11 [''pCubeShape1''])"
    using declined no by simp
  have b: "confirmation \<in> set (log (ready (demo_host No) 11 [''pCubeShape1'']))"
    using declined a by simp
  have c: "duplicate_and_deform (demo_host Yes) 11 (Fin 1) False [''pCubeShape1''] =
       build (demo_host Yes) 11 (Fin 1) False (ls_selection (demo_host Yes) [''pCubeShape1''])
         (mesh_shapes (demo_host Yes) [''pCubeShape1''])
         (measured (demo_host Yes) [''pCubeShape1'']) (ready (demo_host Yes) 11 [''pCubeShape1''])"
    using confirmed yes by simp
  have d: "duplicate_and_deform (demo_host Yes) 2 (Fin 1) False [''pCubeShape1''] =
       build (demo_host Yes) 2 (Fin 1) False (ls_selection (demo_host Yes) [''pCubeShape1''])
         (mesh_shapes (demo_host Yes) [''pCubeShape1''])
         (measured (demo_host Yes) [''pCubeShape1'']) (ready (demo_host Yes) 2 [''pCubeShape1''])"
    using direct by simp
  show ?thesis
    using no_meshes yes_meshes no yes a b c d by simp
qed

section \<open>The selection\<close>

lemma plain_run:
  "duplicate_and_deform (demo_host Yes) 1 (Fin 1) False [''pCubeShape1''] =
     Some (Completed, \<lparr>scene = [''pCubeShape1''], log = plain_trace\<rparr>)"
  by code_simp

lemma build_reselects:
  assumes "build h num_copies scale_factor showcase_setup initial_selection selected_meshes
             box w = Some (out, w')"
  shows "\<exists>w4. call_unit h (Select initial_selection) w4 = Some w'"
  using assms
  by (auto simp: build_def Let_def bind_eq_Some_conv split: prod.splits)

lemma log_ready_Cons:
  "log (ready h num_copies s) = Q LsSelection # tl (log (ready h num_copies s))"
  by (simp add: ready_def read_selection_def)

text \<open>
  Claim C10. A completed call reads the selection first and re-selects it last. On a host where
  \<open>select\<close> makes its argument the selection (\<open>select_replaces\<close>), the selection after the
  call is the selection the call was made with.
\<close>

theorem selection_restored:
  assumes "duplicate_and_deform h num_copies scale_factor showcase_setup s = Some (Completed, w')"
    and "select_replaces h"
  shows "hd (log w') = Q LsSelection
       \<and> last (log w') = C (Select (ls_selection h s)) None
       \<and> ls_selection h (scene w') = ls_selection h s"
proof -
  note b = completed_run(3) [OF assms(1)]
  from build_reselects [OF b] obtain w4
    where sel: "call_unit h (Select (ls_selection h s)) w4 = Some w'" ..
  from call_unit_Some [OF sel] obtain r
    where l: "log w' = log w4 @ [C (Select (ls_selection h s)) None]"
      and e: "exec h (scene w4) (Select (ls_selection h s)) = Some (r, scene w')"
    by blast
  from completed_log [OF assms(1)] obtain evs
    where "log w' = log (ready h num_copies s) @ evs" by blast
  then have "hd (log w') = Q LsSelection"
    by (subst (asm) log_ready_Cons) simp
  moreover have "last (log w') = C (Select (ls_selection h s)) None"
    by (simp add: l)
  moreover have "ls_selection h (scene w') = ls_selection h s"
    using assms(2) e unfolding select_replaces_def by blast
  ultimately show ?thesis by blast
qed

theorem selection_restored_witness:
  "duplicate_and_deform (demo_host Yes) 1 (Fin 1) False [''pCubeShape1''] =
     Some (Completed, \<lparr>scene = [''pCubeShape1''], log = plain_trace\<rparr>)
   \<and> select_replaces (demo_host Yes)
   \<and> hd plain_trace = Q LsSelection
   \<and> last plain_trace = C (Select [''pCubeShape1'']) None
   \<and> ls_selection (demo_host Yes) [''pCubeShape1''] = [''pCubeShape1'']"
proof -
  have select: "select_replaces (demo_host Yes)"
    by (auto simp: select_replaces_def demo_host_def demo_exec_def)
  from selection_restored [OF plain_run select] plain_run select
  show ?thesis by (simp add: demo_host_def)
qed

section \<open>The showcase\<close>

lemma showcase_run:
  "duplicate_and_deform (demo_host Yes) 4 (Fin 0.5) True [''pCubeShape1''] =
     Some (Completed, \<lparr>scene = [''pCubeShape1''], log = showcase_trace\<rparr>)"
  by code_simp










section \<open>The order of the phases\<close>

lemma precede_split:
  assumes "list_all (\<lambda>e. \<not> R e) xs" and "list_all (\<lambda>e. \<not> P e) ys"
  shows "precede P R (xs @ ys)"
proof -
  have "dropWhile (\<lambda>e. \<not> R e) (xs @ ys) = dropWhile (\<lambda>e. \<not> R e) ys"
    using assms(1) by (simp add: list_all_iff)
  moreover have "set (dropWhile (\<lambda>e. \<not> R e) ys) \<subseteq> set ys"
    by (auto dest: set_dropWhileD)
  ultimately show ?thesis
    using assms(2) by (auto simp: precede_def list_all_iff)
qed

lemmas phase_defs = is_selection_query_def is_measurement_def is_showcase_build_def
  is_copy_node_def

lemma cleanup_phases:
  "list_all (\<lambda>e. \<not> is_selection_query e) (cleanup_events found groups)"
  "list_all (\<lambda>e. \<not> is_measurement e) (cleanup_events found groups)"
  "list_all (\<lambda>e. \<not> is_copy_node e) (cleanup_events found groups)"
  by (simp_all add: cleanup_events_def phase_defs)

lemma showcase_phases:
  "list_all (\<lambda>e. \<not> is_selection_query e)
     (showcase_events height depth parent_group initial_selection old_cameras camera old_window
        new_window panel)"
  "list_all (\<lambda>e. \<not> is_measurement e)
     (showcase_events height depth parent_group initial_selection old_cameras camera old_window
        new_window panel)"
  "list_all (\<lambda>e. \<not> is_copy_node e)
     (showcase_events height depth parent_group initial_selection old_cameras camera old_window
        new_window panel)"
  by (simp_all add: showcase_events_def phase_defs)

lemma deform_phases:
  "list_all (\<lambda>e. \<not> is_selection_query e) (deform_events i group_node mesh a)"
  "list_all (\<lambda>e. \<not> is_measurement e) (deform_events i group_node mesh a)"
  "list_all (\<lambda>e. \<not> is_showcase_build e) (deform_events i group_node mesh a)"
  by (simp_all add: deform_events_def phase_defs split: prod.splits)

lemma place_phases:
  "list_all (\<lambda>e. \<not> is_selection_query e)
     (place_events num_copies showcase_setup width height depth i circle_control)"
  "list_all (\<lambda>e. \<not> is_measurement e)
     (place_events num_copies showcase_setup width height depth i circle_control)"
  "list_all (\<lambda>e. \<not> is_showcase_build e)
     (place_events num_copies showcase_setup width height depth i circle_control)"
  by (simp_all add: place_events_def phase_defs)

lemma copy_phases:
  "list_all (\<lambda>e. \<not> is_selection_query e)
     (copy_events num_copies scale_factor showcase_setup selected_meshes width height depth
        parent_group i a)"
  "list_all (\<lambda>e. \<not> is_measurement e)
     (copy_events num_copies scale_factor showcase_setup selected_meshes width height depth
        parent_group i a)"
  "list_all (\<lambda>e. \<not> is_showcase_build e)
     (copy_events num_copies scale_factor showcase_setup selected_meshes width height depth
        parent_group i a)"
  by (simp_all add: copy_events_def place_phases list_all_concat_map2 deform_phases
        split: prod.splits)
    (simp_all add: phase_defs)

lemma ready_phases:
  "list_all (\<lambda>e. \<not> is_showcase_build e) (log (ready h num_copies s))"
  "list_all (\<lambda>e. \<not> is_copy_node e) (log (ready h num_copies s))"
  by (auto simp: ready_def read_selection_def confirmation_def phase_defs list_all_iff)

lemma read_selection_phases:
  "list_all (\<lambda>e. \<not> is_measurement e) (log (read_selection h s))"
  by (auto simp: read_selection_def phase_defs list_all_iff)

lemma build_phases:
  assumes "cleanup = [] \<or> (\<exists>found groups. cleanup = cleanup_events found groups)"
    and "shown = [] \<or> (\<exists>height depth initial_selection old_cameras camera old_window new_window panel.
                   shown = showcase_events height depth parent_group initial_selection
                             old_cameras camera old_window new_window panel)"
  shows "list_all (\<lambda>e. \<not> is_selection_query e)
           (build_events num_copies scale_factor showcase_setup initial_selection selected_meshes
              box cleanup parent_group shown copies)"
    and "list_all (\<lambda>e. \<not> is_measurement e)
           (build_events num_copies scale_factor showcase_setup initial_selection selected_meshes
              box cleanup parent_group shown copies)"
proof -
  have c: "list_all (\<lambda>e. \<not> is_selection_query e) cleanup"
          "list_all (\<lambda>e. \<not> is_measurement e) cleanup"
    using assms(1) cleanup_phases by auto
  have sh: "list_all (\<lambda>e. \<not> is_selection_query e) shown"
           "list_all (\<lambda>e. \<not> is_measurement e) shown"
    using assms(2) showcase_phases by auto
  show "list_all (\<lambda>e. \<not> is_selection_query e)
           (build_events num_copies scale_factor showcase_setup initial_selection selected_meshes
              box cleanup parent_group shown copies)"
    by (simp add: build_events_def c sh list_all_concat_map2 copy_phases split: prod.splits)
      (simp add: phase_defs)
  show "list_all (\<lambda>e. \<not> is_measurement e)
           (build_events num_copies scale_factor showcase_setup initial_selection selected_meshes
              box cleanup parent_group shown copies)"
    by (simp add: build_events_def c sh list_all_concat_map2 copy_phases split: prod.splits)
      (simp add: phase_defs)
qed

text \<open>
  Claim C6, amended. In a completed call the selection is read and tested first, then the
  bounding box is measured, then (when asked for) the camera and the viewer window are
  built, and only then the loop makes the duplicate groups, duplicates, blend shapes, circles
  and constraints: every event of an earlier phase stands before every event of a later one.
\<close>

theorem completed_flow:
  assumes "duplicate_and_deform h num_copies scale_factor showcase_setup s = Some (Completed, w')"
  shows "precede is_selection_query is_measurement (log w')
       \<and> precede is_measurement is_showcase_build (log w')
       \<and> precede is_measurement is_copy_node (log w')
       \<and> precede is_showcase_build is_copy_node (log w')"
proof -
  from completed_log [OF assms]
  obtain cleanup parent_group shown copies
    where c: "cleanup = [] \<or> (\<exists>found groups. cleanup = cleanup_events found groups)"
      and sh: "if showcase_setup
            then \<exists>old_cameras camera old_window new_window panel.
                   shown = showcase_events (fst (snd (measured h s))) (snd (snd (measured h s)))
                             parent_group (ls_selection h s)
                             old_cameras camera old_window new_window panel
            else shown = []"
      and l: "log w' = log (ready h num_copies s)
                @ build_events num_copies scale_factor showcase_setup (ls_selection h s)
                    (mesh_shapes h s) (measured h s) cleanup parent_group shown copies"
    by blast
  let ?build = "build_events num_copies scale_factor showcase_setup (ls_selection h s)
                  (mesh_shapes h s) (measured h s) cleanup parent_group shown copies"
  from sh have sh': "shown = [] \<or> (\<exists>height depth initial_selection old_cameras camera
                   old_window new_window panel.
                   shown = showcase_events height depth parent_group initial_selection
                             old_cameras camera old_window new_window panel)"
    by (cases showcase_setup; simp; blast)
  note b = build_phases [OF c sh', of num_copies scale_factor showcase_setup "ls_selection h s"
             "mesh_shapes h s" "measured h s" copies]
  have first: "precede is_selection_query is_measurement (log w')"
  proof -
    let ?later = "map (\<lambda>mesh. Q (ExactWorldBoundingBox mesh)) (mesh_shapes h s)
                  @ (if num_copies > 10 then [confirmation] else []) @ ?build"
    have split: "log w' = log (read_selection h s) @ ?later"
      by (simp add: l ready_def)
    have later: "list_all (\<lambda>e. \<not> is_selection_query e) ?later"
      using b(1) by (auto simp: list_all_iff phase_defs confirmation_def)
    show ?thesis
      unfolding split by (rule precede_split [OF read_selection_phases later])
  qed
  have second: "precede is_measurement is_showcase_build (log w')"
    unfolding l by (rule precede_split [OF ready_phases(1) b(2)])
  have third: "precede is_measurement is_copy_node (log w')"
    unfolding l by (rule precede_split [OF ready_phases(2) b(2)])
  have fourth: "precede is_showcase_build is_copy_node (log w')"
  proof -
    obtain width height depth where m: "measured h s = (width, height, depth)"
      by (cases "measured h s") auto
    let ?before = "log (ready h num_copies s) @ [Q (ObjExists ''BB_Duplicates_Grp'')] @ cleanup
                   @ [C (Group ''BB_Duplicates_Grp'') (Some parent_group)] @ shown"
    let ?loop = "concat (map2 (copy_events num_copies scale_factor showcase_setup
                   (mesh_shapes h s) width height depth parent_group)
                   [0..<nat num_copies] copies) @ [C (Select (ls_selection h s)) None]"
    have split: "log w' = ?before @ ?loop"
      by (simp add: l m build_events_def)
    have "list_all (\<lambda>e. \<not> is_copy_node e) cleanup"
      using c cleanup_phases by auto
    moreover have "list_all (\<lambda>e. \<not> is_copy_node e) shown"
      using sh' showcase_phases by auto
    ultimately have before: "list_all (\<lambda>e. \<not> is_copy_node e) ?before"
      by (simp add: ready_phases) (simp add: phase_defs)
    have loop: "list_all (\<lambda>e. \<not> is_showcase_build e) ?loop"
      by (simp add: list_all_concat_map2 copy_phases) (simp add: phase_defs)
    show ?thesis
      unfolding split by (rule precede_split [OF before loop])
  qed
  from first second third fourth show ?thesis by blast
qed

theorem completed_flow_witness:
  "duplicate_and_deform (demo_host Yes) 4 (Fin 0.5) True [''pCubeShape1''] =
     Some (Completed, \<lparr>scene = [''pCubeShape1''], log = showcase_trace\<rparr>)
   \<and> precede is_selection_query is_measurement showcase_trace
   \<and> precede is_measurement is_showcase_build showcase_trace
   \<and> precede is_measurement is_copy_node showcase_trace
   \<and> precede is_showcase_build is_copy_node showcase_trace
   \<and> list_ex is_showcase_build showcase_trace
   \<and> list_ex is_copy_node showcase_trace"
proof -
  have "list_ex is_showcase_build showcase_trace" "list_ex is_copy_node showcase_trace"
    by code_simp+
  with completed_flow [OF showcase_run] showcase_run show ?thesis by simp
qed

text \<open>
  Claim C6 as stated fails: in the trace of a completed call with the showcase, the camera
  and the window are built before the first duplicate group, not after the loop.
\<close>

theorem showcase_after_loop_counterexample:
  "duplicate_and_deform (demo_host Yes) 4 (Fin 0.5) True [''pCubeShape1''] =
     Some (Completed, \<lparr>scene = [''pCubeShape1''], log = showcase_trace\<rparr>)
   \<and> \<not> precede is_copy_node is_showcase_build showcase_trace"
proof -
  have "\<not> precede is_copy_node is_showcase_build showcase_trace"
    by code_simp
  with showcase_run show ?thesis by simp
qed

section \<open>Duplicates and blend shapes\<close>

lemma group_names_simps [simp]:
  "group_names [] = []"
  "group_names (Q q # evs) = group_names evs"
  "group_names (C c r # evs) = (case c of Group n \<Rightarrow> [n] | _ \<Rightarrow> []) @ group_names evs"
  "group_names (Warning t m # evs) = group_names evs"
  "group_names (Question t m # evs) = group_names evs"
  "group_names (evs @ evs') = group_names evs @ group_names evs'"
  by (simp_all add: group_names_def split: command.splits)

lemma duplicates_simps [simp]:
  "duplicates [] = []"
  "duplicates (Q q # evs) = duplicates evs"
  "duplicates (C c r # evs) =
     (case (c, r) of (Duplicate mesh, Some d) \<Rightarrow> [(mesh, d)] | _ \<Rightarrow> []) @ duplicates evs"
  "duplicates (Warning t m # evs) = duplicates evs"
  "duplicates (Question t m # evs) = duplicates evs"
  "duplicates (evs @ evs') = duplicates evs @ duplicates evs'"
  by (simp_all add: duplicates_def split: command.splits option.splits)

lemma renames_simps [simp]:
  "renames [] = []"
  "renames (Q q # evs) = renames evs"
  "renames (C c r # evs) =
     (case (c, r) of (Rename d n, Some renamed) \<Rightarrow> [(d, renamed)] | _ \<Rightarrow> []) @ renames evs"
  "renames (Warning t m # evs) = renames evs"
  "renames (Question t m # evs) = renames evs"
  "renames (evs @ evs') = renames evs @ renames evs'"
  by (simp_all add: renames_def split: command.splits option.splits)

lemma blend_shapes_simps [simp]:
  "blend_shapes [] = []"
  "blend_shapes (Q q # evs) = blend_shapes evs"
  "blend_shapes (C c r # evs) =
     (case (c, r) of (BlendShape source target n, Some b) \<Rightarrow> [(source, target, b)] | _ \<Rightarrow> [])
     @ blend_shapes evs"
  "blend_shapes (Warning t m # evs) = blend_shapes evs"
  "blend_shapes (Question t m # evs) = blend_shapes evs"
  "blend_shapes (evs @ evs') = blend_shapes evs @ blend_shapes evs'"
  by (simp_all add: blend_shapes_def split: command.splits option.splits)







lemma queries_projections [simp]:
  "group_names (map (\<lambda>x. Q (f x)) xs) = []"
  "duplicates (map (\<lambda>x. Q (f x)) xs) = []"
  "renames (map (\<lambda>x. Q (f x)) xs) = []"
  "blend_shapes (map (\<lambda>x. Q (f x)) xs) = []"
  by (induction xs) simp_all







section \<open>Control circles\<close>

lemma groups_made_simps [simp]:
  "groups_made [] = []"
  "groups_made (Q q # evs) = groups_made evs"
  "groups_made (C c r # evs) =
     (case (c, r) of (Group n, Some g) \<Rightarrow> [(n, g)] | _ \<Rightarrow> []) @ groups_made evs"
  "groups_made (Warning t m # evs) = groups_made evs"
  "groups_made (Question t m # evs) = groups_made evs"
  "groups_made (evs @ evs') = groups_made evs @ groups_made evs'"
  by (simp_all add: groups_made_def split: command.splits option.splits)

lemma circles_simps [simp]:
  "circles [] = []"
  "circles (Q q # evs) = circles evs"
  "circles (C c r # evs) =
     (case (c, r) of (Circle n radius, Some k) \<Rightarrow> [(n, radius, k)] | _ \<Rightarrow> []) @ circles evs"
  "circles (Warning t m # evs) = circles evs"
  "circles (Question t m # evs) = circles evs"
  "circles (evs @ evs') = circles evs @ circles evs'"
  by (simp_all add: circles_def split: command.splits option.splits)

lemma scalings_simps [simp]:
  "scalings [] = []"
  "scalings (Q q # evs) = scalings evs"
  "scalings (C c r # evs) =
     (case c of Scale x y z obj \<Rightarrow> [(x, y, z, obj)] | _ \<Rightarrow> []) @ scalings evs"
  "scalings (Warning t m # evs) = scalings evs"
  "scalings (Question t m # evs) = scalings evs"
  "scalings (evs @ evs') = scalings evs @ scalings evs'"
  by (simp_all add: scalings_def split: command.splits)

lemma parent_constraints_simps [simp]:
  "parent_constraints [] = []"
  "parent_constraints (Q q # evs) = parent_constraints evs"
  "parent_constraints (C c r # evs) =
     (case c of ParentConstraint k g \<Rightarrow> [(k, g)] | _ \<Rightarrow> []) @ parent_constraints evs"
  "parent_constraints (Warning t m # evs) = parent_constraints evs"
  "parent_constraints (Question t m # evs) = parent_constraints evs"
  "parent_constraints (evs @ evs') = parent_constraints evs @ parent_constraints evs'"
  by (simp_all add: parent_constraints_def split: command.splits)

lemma scale_constraints_simps [simp]:
  "scale_constraints [] = []"
  "scale_constraints (Q q # evs) = scale_constraints evs"
  "scale_constraints (C c r # evs) =
     (case c of ScaleConstraint k g \<Rightarrow> [(k, g)] | _ \<Rightarrow> []) @ scale_constraints evs"
  "scale_constraints (Warning t m # evs) = scale_constraints evs"
  "scale_constraints (Question t m # evs) = scale_constraints evs"
  "scale_constraints (evs @ evs') = scale_constraints evs @ scale_constraints evs'"
  by (simp_all add: scale_constraints_def split: command.splits)

lemma parentings_simps [simp]:
  "parentings [] = []"
  "parentings (Q q # evs) = parentings evs"
  "parentings (C c r # evs) =
     (case c of Parent child parent \<Rightarrow> [(child, parent)] | _ \<Rightarrow> []) @ parentings evs"
  "parentings (Warning t m # evs) = parentings evs"
  "parentings (Question t m # evs) = parentings evs"
  "parentings (evs @ evs') = parentings evs @ parentings evs'"
  by (simp_all add: parentings_def split: command.splits)

lemma rotations_simps [simp]:
  "rotations [] = []"
  "rotations (Q q # evs) = rotations evs"
  "rotations (C c r # evs) =
     (case c of Rotate x y z obj \<Rightarrow> [(x, y, z, obj)] | _ \<Rightarrow> []) @ rotations evs"
  "rotations (Warning t m # evs) = rotations evs"
  "rotations (Question t m # evs) = rotations evs"
  "rotations (evs @ evs') = rotations evs @ rotations evs'"
  by (simp_all add: rotations_def split: command.splits)

lemma local_moves_simps [simp]:
  "local_moves [] = []"
  "local_moves (Q q # evs) = local_moves evs"
  "local_moves (C c r # evs) =
     (case c of Move x y z obj local \<Rightarrow> (if local then [(x, y, z, obj)] else []) | _ \<Rightarrow> [])
     @ local_moves evs"
  "local_moves (Warning t m # evs) = local_moves evs"
  "local_moves (Question t m # evs) = local_moves evs"
  "local_moves (evs @ evs') = local_moves evs @ local_moves evs'"
  by (simp_all add: local_moves_def split: command.splits bool.splits)

lemma controls_append [simp]: "controls (evs @ evs') = controls evs @ controls evs'"
  by (simp add: controls_def)





lemma queries_rig [simp]:
  "groups_made (map (\<lambda>x. Q (f x)) xs) = []"
  "circles (map (\<lambda>x. Q (f x)) xs) = []"
  "scalings (map (\<lambda>x. Q (f x)) xs) = []"
  "parent_constraints (map (\<lambda>x. Q (f x)) xs) = []"
  "scale_constraints (map (\<lambda>x. Q (f x)) xs) = []"
  "rotations (map (\<lambda>x. Q (f x)) xs) = []"
  "local_moves (map (\<lambda>x. Q (f x)) xs) = []"
  by (induction xs) simp_all



















section \<open>The cleanup of an earlier call\<close>

lemma remove_duplicates_found:
  assumes "remove_duplicates h w = Some w'"
  shows "\<exists>groups. log w' = log w @ cleanup_events
           (ls h (scene w) [''*BB_Duplicate_Mesh*dup*''] (Some ''transform'')
            @ ls h (scene w) [''*BB_Duplicate_Mesh*ctrl*''] (Some ''transform'')
            @ ls h (scene w) [''*BB_Duplicate_Mesh*bs*''] (Some ''blendShape'')) groups"
  using assms
  by (auto simp: remove_duplicates_def cleanup_events_def Let_def bind_eq_Some_conv
           dest!: call_unit_log)

text \<open>
  The cleanup comes first: a completed call asks whether \<open>BB_Duplicates_Grp\<close> exists before
  its first command; when it does, the commands before the creation of the new parent group
  are the two deletions of \<open>remove_duplicates\<close>, the first one of the nodes that the three
  patterns list in the scene of the call; when it does not, the creation of the parent group
  is the first command.
\<close>

lemma cleanup_before_construction:
  assumes "duplicate_and_deform h num_copies scale_factor showcase_setup s = Some (Completed, w')"
  shows "\<exists>cleanup parent_group rest.
           log w' = log (ready h num_copies s)
                    @ Q (ObjExists ''BB_Duplicates_Grp'') # cleanup
                    @ C (Group ''BB_Duplicates_Grp'') (Some parent_group) # rest
         \<and> (if objExists h s ''BB_Duplicates_Grp''
            then \<exists>groups. cleanup = cleanup_events
                   (ls h s [''*BB_Duplicate_Mesh*dup*''] (Some ''transform'')
                    @ ls h s [''*BB_Duplicate_Mesh*ctrl*''] (Some ''transform'')
                    @ ls h s [''*BB_Duplicate_Mesh*bs*''] (Some ''blendShape'')) groups
            else cleanup = [])"
proof -
  let ?start = "ready h num_copies s"
  let ?asked = "emit (Q (ObjExists ''BB_Duplicates_Grp'')) ?start"
  obtain width height depth where m: "measured h s = (width, height, depth)"
    by (cases "measured h s") auto
  from completed_run(3) [OF assms] obtain w1 parent_group w2 w3 w4
    where clean: "(if objExists h s ''BB_Duplicates_Grp''
                   then remove_duplicates h ?asked else Some ?asked) = Some w1"
      and grp: "call_str h (Group ''BB_Duplicates_Grp'') w1 = Some (parent_group, w2)"
      and shw: "(if showcase_setup
                 then showcase h height depth parent_group (ls_selection h s) w2
                 else Some w2) = Some w3"
      and cps: "make_copies h num_copies scale_factor showcase_setup (mesh_shapes h s)
                  width height depth parent_group [0..<nat num_copies] w3 = Some w4"
      and sel: "call_unit h (Select (ls_selection h s)) w4 = Some w'"
    unfolding build_def Let_def m
    by (auto simp: bind_eq_Some_conv)
  have "\<exists>cleanup. log w1 = log ?start @ Q (ObjExists ''BB_Duplicates_Grp'') # cleanup
         \<and> (if objExists h s ''BB_Duplicates_Grp''
            then \<exists>groups. cleanup = cleanup_events
                   (ls h s [''*BB_Duplicate_Mesh*dup*''] (Some ''transform'')
                    @ ls h s [''*BB_Duplicate_Mesh*ctrl*''] (Some ''transform'')
                    @ ls h s [''*BB_Duplicate_Mesh*bs*''] (Some ''blendShape'')) groups
            else cleanup = [])"
  proof (cases "objExists h s ''BB_Duplicates_Grp''")
    case True
    with clean have "remove_duplicates h ?asked = Some w1" by simp
    from remove_duplicates_found [OF this] obtain groups
      where "log w1 = log ?asked @ cleanup_events
           (ls h s [''*BB_Duplicate_Mesh*dup*''] (Some ''transform'')
            @ ls h s [''*BB_Duplicate_Mesh*ctrl*''] (Some ''transform'')
            @ ls h s [''*BB_Duplicate_Mesh*bs*''] (Some ''blendShape'')) groups"
      by auto
    with True show ?thesis
      by (intro exI [of _ "cleanup_events
           (ls h s [''*BB_Duplicate_Mesh*dup*''] (Some ''transform'')
            @ ls h s [''*BB_Duplicate_Mesh*ctrl*''] (Some ''transform'')
            @ ls h s [''*BB_Duplicate_Mesh*bs*''] (Some ''blendShape'')) groups"])
        (simp, blast)
  next
    case False
    with clean have "w1 = ?asked" by simp
    with False show ?thesis by simp
  qed
  then obtain cleanup
    where l1: "log w1 = log ?start @ Q (ObjExists ''BB_Duplicates_Grp'') # cleanup"
      and c: "if objExists h s ''BB_Duplicates_Grp''
            then \<exists>groups. cleanup = cleanup_events
                   (ls h s [''*BB_Duplicate_Mesh*dup*''] (Some ''transform'')
                    @ ls h s [''*BB_Duplicate_Mesh*ctrl*''] (Some ''transform'')
                    @ ls h s [''*BB_Duplicate_Mesh*bs*''] (Some ''blendShape'')) groups
            else cleanup = []"
    by blast
  have "\<exists>shown. log w3 = log w2 @ shown"
    using shw by (cases showcase_setup) (auto dest: showcase_log)
  then obtain shown where l3: "log w3 = log w2 @ shown" ..
  from make_copies_log [OF cps] obtain loop where l4: "log w4 = log w3 @ loop"
    by blast
  have "log w' = log ?start @ Q (ObjExists ''BB_Duplicates_Grp'') # cleanup
                 @ C (Group ''BB_Duplicates_Grp'') (Some parent_group)
                 # (shown @ loop @ [C (Select (ls_selection h s)) None])"
    using l1 call_str_log [OF grp] l3 l4 call_unit_log [OF sel] by simp
  with c show ?thesis by blast
qed


end
